theory Spec2Isabelle
  imports Main "HOL-Library.Word"
begin

unbundle bit_operations_syntax

section \<open>Machine state\<close>

text \<open>
  The firmware exists in two revisions: \<^verbatim>\<open>src/src/main.c\<close> (binary counters, 100
  sub-units per second) and \<^verbatim>\<open>src/unnamed/part_000\<close> (packed BCD seconds and
  minutes, 128 sub-units per second). Functions that differ between the two carry the
  suffix \<open>_bin\<close> or \<open>_bcd\<close>; functions whose text is the same in both are modelled once.

  All C globals and the memory-mapped registers the code writes are fields of one record.
  The fields \<open>text_LUT_ascii_base_idx\<close>, \<open>num_zeros\<close> and the three \<open>num_buffer\<close>s exist
  only in \<^verbatim>\<open>main.c\<close>. \<open>prev_joypad\<close> is the function-local static of \<open>handle_inputs\<close>.
  The background tile map is a function from (column, row) to tile index.
\<close>

type_synonym u8 = "8 word"

record state =
  is_gbc :: bool
  is_cpu_fast :: bool
  text_LUT_ascii_base_idx :: u8
  num_zeros :: u8
  stopwatch :: bool
  play_tick_sfx :: bool
  minutes :: u8
  seconds :: u8
  hundredths :: u8
  num_buffer_minutes :: string
  num_buffer_seconds :: string
  num_buffer_hundredths :: string
  prev_joypad :: u8
  TMA_REG :: u8
  TIMA_REG :: u8
  TAC_REG :: u8
  NR10_REG :: u8
  NR11_REG :: u8
  NR12_REG :: u8
  NR13_REG :: u8
  NR14_REG :: u8
  NR50_REG :: u8
  NR51_REG :: u8
  NR52_REG :: u8
  bkg :: "nat \<times> nat \<Rightarrow> u8"

subsection \<open>Constants\<close>

text \<open>Macros of \<^verbatim>\<open>main.c\<close>.\<close>

definition TAC_REG_STOP :: u8 where "TAC_REG_STOP = 0x00"
definition TAC_REG_START_1024 :: u8 where "TAC_REG_START_1024 = 0x04"
definition TAC_REG_START_256 :: u8 where "TAC_REG_START_256 = 0x07"
definition TMA_REG_REALTIME_DMG :: u8 where "TMA_REG_REALTIME_DMG = 0x5C"
definition TMA_REG_REALTIME_GBC :: u8 where "TMA_REG_REALTIME_GBC = 0xAE"

text \<open>Macro of \<^verbatim>\<open>part_000\<close>.\<close>

definition NUMBERS_BASE_TILE_IDX :: u8 where "NUMBERS_BASE_TILE_IDX = 16"

text \<open>
  Constants of the console's C library header that the code uses by name: the timer
  control bits (the comments of \<^verbatim>\<open>main.c\<close> give \<open>TACF_STOP\<close> and \<open>TACF_4KHZ\<close> as
  \<open>0b00000000\<close>, and its register table has bit 2 as the start bit) and the joypad
  bits of the two buttons.
\<close>

definition TACF_STOP :: u8 where "TACF_STOP = 0x00"
definition TACF_START :: u8 where "TACF_START = 0x04"
definition TACF_4KHZ :: u8 where "TACF_4KHZ = 0x00"
definition J_A :: u8 where "J_A = 0x10"
definition J_B :: u8 where "J_B = 0x20"

text \<open>The timer runs exactly when bit 2 of the control register is set.\<close>

definition timer_stopped :: "state \<Rightarrow> bool" where
  "timer_stopped s = (TAC_REG s AND 0x04 = 0)"

subsection \<open>Console output\<close>

text \<open>
  \<open>gotoxy (x, y); printf (str)\<close> writes one tile per character from column \<open>x\<close> of row
  \<open>y\<close>. The font is loaded at tile 0 and starts at the space character, so a character
  is shown by the tile of its code minus 32 (the code relies on it: tile 16 is "0").
\<close>

fun print_at :: "nat \<Rightarrow> nat \<Rightarrow> string \<Rightarrow> (nat \<times> nat \<Rightarrow> u8) \<Rightarrow> (nat \<times> nat \<Rightarrow> u8)" where
  "print_at x y [] scr = scr"
| "print_at x y (c # cs) scr = print_at (Suc x) y cs (scr((x, y) := of_char c - 32))"

definition printf_xy :: "nat \<Rightarrow> nat \<Rightarrow> string \<Rightarrow> state \<Rightarrow> state" where
  "printf_xy x y str s = s\<lparr>bkg := print_at x y str (bkg s)\<rparr>"

definition set_vram_byte_xy :: "nat \<Rightarrow> nat \<Rightarrow> u8 \<Rightarrow> state \<Rightarrow> state" where
  "set_vram_byte_xy x y t s = s\<lparr>bkg := (bkg s)((x, y) := t)\<rparr>"

subsection \<open>Sound effects\<close>

definition VOLUME_MAX :: "state \<Rightarrow> state" where
  "VOLUME_MAX s = s\<lparr>NR50_REG := 0x77\<rparr>"

definition VOLUME_LOW :: "state \<Rightarrow> state" where
  "VOLUME_LOW s = s\<lparr>NR50_REG := 0x11\<rparr>"

definition SOUND_ON :: "state \<Rightarrow> state" where
  "SOUND_ON s = s\<lparr>NR52_REG := 0x80, NR51_REG := 0xFF, NR50_REG := 0x77\<rparr>"

definition sfx_1 :: "state \<Rightarrow> state" where
  "sfx_1 s = s\<lparr>NR10_REG := 0x17, NR11_REG := 0x42, NR12_REG := 0xD5,
                NR13_REG := 0x37, NR14_REG := 0x87\<rparr>"

definition sfx_2 :: "state \<Rightarrow> state" where
  "sfx_2 s = s\<lparr>NR10_REG := 0x64, NR11_REG := 0x82, NR12_REG := 0xD5,
                NR13_REG := 0x37, NR14_REG := 0x87\<rparr>"

definition sfx_4 :: "state \<Rightarrow> state" where
  "sfx_4 s = s\<lparr>NR10_REG := 0x6D, NR11_REG := 0x85, NR12_REG := 0xD1,
                NR13_REG := 0x5D, NR14_REG := 0x87\<rparr>"

section \<open>System bring-up\<close>

text \<open>\<open>cgb\<close> is the outcome of the hardware probe \<open>_cpu == CGB_TYPE\<close>.\<close>

definition set_cpu :: "bool \<Rightarrow> state \<Rightarrow> state" where
  "set_cpu cgb s =
     (let s1 = (if cgb then s\<lparr>is_gbc := True\<rparr> else s)
      in if is_gbc s1 then s1\<lparr>is_cpu_fast := True\<rparr> else s1)"

definition init_bkg :: "u8 \<Rightarrow> state \<Rightarrow> state" where
  "init_bkg t s = s\<lparr>bkg := (\<lambda>_. t)\<rparr>"

definition init_system :: "bool \<Rightarrow> state \<Rightarrow> state" where
  "init_system cgb s = SOUND_ON (init_bkg 0 (set_cpu cgb s))"

definition init_scene :: "state \<Rightarrow> state" where
  "init_scene s =
     printf_xy 5 16 ''B:   Reset''
      (printf_xy 5 15 ''A:   Start''
        (printf_xy 1 14 ''------------------''
          (printf_xy 6 6 ''00:00:00''
            (printf_xy 1 2 ''------------------''
              (printf_xy 1 1 ''GB STOPWATCH :'' s)))))"

section \<open>Hardware timer registers\<close>

text \<open>\<^verbatim>\<open>main.c\<close>: modulo and counter are both loaded.\<close>

definition set_timer_realtime_reg :: "state \<Rightarrow> state" where
  "set_timer_realtime_reg s =
     (if \<not> is_cpu_fast s
      then s\<lparr>TMA_REG := TMA_REG_REALTIME_DMG, TIMA_REG := TMA_REG_REALTIME_DMG\<rparr>
      else s\<lparr>TMA_REG := TMA_REG_REALTIME_GBC, TIMA_REG := TMA_REG_REALTIME_GBC\<rparr>)"

text \<open>\<^verbatim>\<open>part_000\<close>: only the modulo is loaded; \<open>(uint8_t)(0x100 - 32)\<close> is computed on
  \<open>int\<close> and then truncated to a byte.\<close>

definition set_timer_reg_stopwatch :: "state \<Rightarrow> state" where
  "set_timer_reg_stopwatch s =
     (if \<not> is_cpu_fast s
      then s\<lparr>TMA_REG := word_of_int (0x100 - 32)\<rparr>
      else s\<lparr>TMA_REG := word_of_int (0x100 - 64)\<rparr>)"

section \<open>The timer interrupt service routine\<close>

subsection \<open>Binary counters (\<^verbatim>\<open>main.c\<close>)\<close>

definition stopwatch_timer_isr_bin :: "state \<Rightarrow> state" where
  "stopwatch_timer_isr_bin s =
     (if stopwatch s then
        (let s1 = s\<lparr>hundredths := hundredths s + 1\<rparr>
         in if 100 \<le> hundredths s1 then
              (let s2 = s1\<lparr>hundredths := 0\<rparr>;
                   s3 = s2\<lparr>seconds := seconds s2 + 1\<rparr>;
                   s4 = s3\<lparr>play_tick_sfx := True\<rparr>
               in if 60 \<le> seconds s4
                  then (let s5 = s4\<lparr>seconds := 0\<rparr> in s5\<lparr>minutes := minutes s5 + 1\<rparr>)
                  else s4)
            else s1)
      else s)"

subsection \<open>Packed BCD (\<^verbatim>\<open>part_000\<close>)\<close>

text \<open>
  The inline assembly \<open>ld a, (#_seconds); add #0x01; daa; ld (#_seconds), a\<close>.
  \<open>add\<close> leaves the sum in the accumulator, the half-carry flag H (carry out of bit 3)
  and the carry flag C (carry out of bit 7), and clears the subtract flag N.
  \<open>daa\<close> after an addition adds \<open>0x60\<close> when C is set or the accumulator exceeds
  \<open>0x99\<close>, then adds \<open>0x06\<close> when H is set or the low nibble exceeds 9.
\<close>

definition add_imm :: "u8 \<Rightarrow> u8 \<Rightarrow> u8 \<times> bool \<times> bool" where
  "add_imm a n =
     (a + n, 0x0F < unat (a AND 0x0F) + unat (n AND 0x0F), 0xFF < unat a + unat n)"

definition daa :: "u8 \<times> bool \<times> bool \<Rightarrow> u8" where
  "daa r =
     (case r of (a, h, c) \<Rightarrow>
        (let a1 = (if c \<or> 0x99 < a then a + 0x60 else a)
         in if h \<or> 0x09 < (a1 AND 0x0F) then a1 + 0x06 else a1))"

definition bcdIncrement :: "u8 \<Rightarrow> u8" where
  "bcdIncrement x = daa (add_imm x 0x01)"

definition stopwatch_timer_isr_bcd :: "state \<Rightarrow> state" where
  "stopwatch_timer_isr_bcd s =
     (if stopwatch s then
        (let s1 = s\<lparr>hundredths := (hundredths s + 1) AND 0x7F\<rparr>
         in if hundredths s1 = 0 then
              (let s2 = s1\<lparr>seconds := bcdIncrement (seconds s1)\<rparr>;
                   s3 = s2\<lparr>play_tick_sfx := True\<rparr>
               in if 0x60 \<le> seconds s3
                  then (let s4 = s3\<lparr>seconds := 0x00\<rparr>
                        in s4\<lparr>minutes := bcdIncrement (minutes s4)\<rparr>)
                  else s3)
            else s1)
      else s)"


section \<open>Stopwatch routines\<close>

text \<open>\<open>reset_stopwatch\<close> and \<open>pause_stopwatch\<close> have the same text in both revisions
  (\<open>TAC_REG_STOP\<close> and \<open>TACF_STOP\<close> are both 0).\<close>

definition reset_stopwatch :: "state \<Rightarrow> state" where
  "reset_stopwatch s =
     (let s1 = sfx_4 s;
          s2 = s1\<lparr>stopwatch := False\<rparr>;
          s3 = s2\<lparr>minutes := 0\<rparr>;
          s4 = s3\<lparr>seconds := 0\<rparr>;
          s5 = s4\<lparr>hundredths := 0\<rparr>
      in printf_xy 6 6 ''00:00:00'' s5)"

text \<open>The pause does not write \<open>TIMA_REG\<close> or \<open>TMA_REG\<close> (the source's note: "dont reset
  TIMA_REG, pick up where it left off").\<close>

definition pause_stopwatch :: "state \<Rightarrow> state" where
  "pause_stopwatch s =
     (let s1 = s\<lparr>TAC_REG := TACF_STOP\<rparr>;
          s2 = s1\<lparr>stopwatch := False\<rparr>;
          s3 = sfx_1 (VOLUME_MAX s2)
      in printf_xy 5 16 ''B:   Reset'' (printf_xy 10 15 ''Start'' s3))"

definition start_stopwatch_bin :: "state \<Rightarrow> state" where
  "start_stopwatch_bin s =
     (let s1 = s\<lparr>TAC_REG := (if is_cpu_fast s then TAC_REG_START_1024 else TAC_REG_START_256)\<rparr>;
          s2 = s1\<lparr>stopwatch := True\<rparr>;
          s3 = sfx_1 (VOLUME_MAX s2)
      in printf_xy 5 16 ''          '' (printf_xy 10 15 ''Stop '' s3))"

definition start_stopwatch_bcd :: "state \<Rightarrow> state" where
  "start_stopwatch_bcd s =
     (let s1 = s\<lparr>TAC_REG := TACF_4KHZ OR TACF_START\<rparr>;
          s2 = s1\<lparr>stopwatch := True\<rparr>;
          s3 = sfx_1 (VOLUME_MAX s2)
      in printf_xy 5 16 ''          '' (printf_xy 10 15 ''Stop '' s3))"

subsection \<open>Input handling\<close>

text \<open>
  \<open>handle_inputs\<close> calls \<open>joypad ()\<close> three times: \<open>j0\<close> is the reading kept as
  \<open>current_joypad\<close>, \<open>j1\<close> the one tested for the A button and \<open>j2\<close> the one tested for
  the B button. The B test reads \<open>stopwatch\<close> after the A branch has run.
\<close>

definition handle_inputs_bin :: "u8 \<Rightarrow> u8 \<Rightarrow> u8 \<Rightarrow> state \<Rightarrow> state" where
  "handle_inputs_bin j0 j1 j2 s =
     (let current_joypad = j0;
          s1 = (if j1 AND J_A \<noteq> 0 \<and> \<not> (prev_joypad s AND J_A \<noteq> 0)
                then (if stopwatch s then pause_stopwatch s else start_stopwatch_bin s)
                else s);
          s2 = (if j2 AND J_B \<noteq> 0 \<and> \<not> (prev_joypad s1 AND J_B \<noteq> 0) \<and> \<not> stopwatch s1
                then reset_stopwatch s1
                else s1)
      in s2\<lparr>prev_joypad := current_joypad\<rparr>)"

definition handle_inputs_bcd :: "u8 \<Rightarrow> u8 \<Rightarrow> u8 \<Rightarrow> state \<Rightarrow> state" where
  "handle_inputs_bcd j0 j1 j2 s =
     (let current_joypad = j0;
          s1 = (if j1 AND J_A \<noteq> 0 \<and> \<not> (prev_joypad s AND J_A \<noteq> 0)
                then (if stopwatch s then pause_stopwatch s else start_stopwatch_bcd s)
                else s);
          s2 = (if j2 AND J_B \<noteq> 0 \<and> \<not> (prev_joypad s1 AND J_B \<noteq> 0) \<and> \<not> stopwatch s1
                then reset_stopwatch s1
                else s1)
      in s2\<lparr>prev_joypad := current_joypad\<rparr>)"

subsection \<open>Drawing the digits, \<^verbatim>\<open>main.c\<close>\<close>

text \<open>\<open>uitoa (v, buffer, 10)\<close> of the C library, for a byte argument: the decimal
  digits of \<open>v\<close> without leading zeros.\<close>

definition digit_char :: "nat \<Rightarrow> char" where
  "digit_char d = ''0123456789'' ! (d mod 10)"

definition uitoa :: "u8 \<Rightarrow> string" where
  "uitoa v =
     (let n = unat v
      in if n < 10 then [digit_char n]
         else if n < 100 then [digit_char (n div 10), digit_char (n mod 10)]
         else [digit_char (n div 100), digit_char (n div 10 mod 10), digit_char (n mod 10)])"

text \<open>The two loops of \<open>draw_numbers_ascii\<close>; \<open>vramAddr++\<close> is the next column.\<close>

fun draw_zeros :: "nat \<Rightarrow> nat \<Rightarrow> nat \<Rightarrow> u8 \<Rightarrow> (nat \<times> nat \<Rightarrow> u8) \<Rightarrow> (nat \<times> nat \<Rightarrow> u8)" where
  "draw_zeros 0 x y base scr = scr"
| "draw_zeros (Suc j) x y base scr = draw_zeros j (Suc x) y base (scr((x, y) := base + 16))"

fun draw_digits :: "nat \<Rightarrow> nat \<Rightarrow> u8 \<Rightarrow> string \<Rightarrow> (nat \<times> nat \<Rightarrow> u8) \<Rightarrow> (nat \<times> nat \<Rightarrow> u8)" where
  "draw_digits x y base [] scr = scr"
| "draw_digits x y base (c # cs) scr =
     (if (48::nat) \<le> of_char c \<and> of_char c \<le> (57::nat)
      then draw_digits (Suc x) y base cs (scr((x, y) := base + of_char c - 32))
      else draw_digits x y base cs scr)"

definition draw_numbers_ascii :: "nat \<Rightarrow> nat \<Rightarrow> string \<Rightarrow> state \<Rightarrow> state" where
  "draw_numbers_ascii x y buffer s =
     (let z = unat (num_zeros s);
          base = text_LUT_ascii_base_idx s
      in s\<lparr>bkg := draw_digits (x + z) y base buffer (draw_zeros z x y base (bkg s))\<rparr>)"

definition print_stopwatch_bin :: "state \<Rightarrow> state" where
  "print_stopwatch_bin s =
     (let s1 = s\<lparr>num_zeros := (if 9 < minutes s then 0 else 1)\<rparr>;
          s2 = s1\<lparr>num_buffer_minutes := uitoa (minutes s1)\<rparr>;
          s3 = draw_numbers_ascii 6 6 (num_buffer_minutes s2) s2;
          s4 = s3\<lparr>num_zeros := (if 9 < seconds s3 then 0 else 1)\<rparr>;
          s5 = s4\<lparr>num_buffer_seconds := uitoa (seconds s4)\<rparr>;
          s6 = draw_numbers_ascii 9 6 (num_buffer_seconds s5) s5;
          s7 = s6\<lparr>num_zeros := (if 9 < hundredths s6 then 0 else 1)\<rparr>;
          s8 = s7\<lparr>num_buffer_hundredths := uitoa (hundredths s7)\<rparr>;
          s9 = draw_numbers_ascii 12 6 (num_buffer_hundredths s8) s8
      in set_vram_byte_xy 14 6 0 s9)"

subsection \<open>Drawing the digits, \<^verbatim>\<open>part_000\<close>\<close>

definition MilTable128 :: "string list" where
  "MilTable128 =
     [''00'', ''00'', ''01'', ''02'',
      ''03'', ''03'', ''04'', ''05'',
      ''06'', ''07'', ''07'', ''08'',
      ''09'', ''10'', ''10'', ''11'',
      ''12'', ''13'', ''14'', ''14'',
      ''15'', ''16'', ''17'', ''17'',
      ''18'', ''19'', ''20'', ''21'',
      ''21'', ''22'', ''23'', ''24'',
      ''25'', ''25'', ''26'', ''27'',
      ''28'', ''28'', ''29'', ''30'',
      ''31'', ''32'', ''32'', ''33'',
      ''34'', ''35'', ''35'', ''36'',
      ''37'', ''38'', ''39'', ''39'',
      ''40'', ''41'', ''42'', ''42'',
      ''43'', ''44'', ''45'', ''46'',
      ''46'', ''47'', ''48'', ''49'',
      ''50'', ''50'', ''51'', ''52'',
      ''53'', ''53'', ''54'', ''55'',
      ''56'', ''57'', ''57'', ''58'',
      ''59'', ''60'', ''60'', ''61'',
      ''62'', ''63'', ''64'', ''64'',
      ''65'', ''66'', ''67'', ''67'',
      ''68'', ''69'', ''70'', ''71'',
      ''71'', ''72'', ''73'', ''74'',
      ''75'', ''75'', ''76'', ''77'',
      ''78'', ''78'', ''79'', ''80'',
      ''81'', ''82'', ''82'', ''83'',
      ''84'', ''85'', ''85'', ''86'',
      ''87'', ''88'', ''89'', ''89'',
      ''90'', ''91'', ''92'', ''92'',
      ''93'', ''94'', ''95'', ''96'',
      ''96'', ''97'', ''98'', ''99'']"

text \<open>
  The two nibbles of a packed byte as \<open>print_stopwatch\<close> extracts them.
\<close>

definition bcd_tens :: "u8 \<Rightarrow> u8" where
  "bcd_tens x = (drop_bit 4 x) AND 0x0F"

definition bcd_ones :: "u8 \<Rightarrow> u8" where
  "bcd_ones x = x AND 0x0F"

text \<open>
  \<open>MilTable128[hundredths]\<close> is an array read: C leaves it undefined from index 128
  on, and \<open>!\<close> is unspecified there. \<open>hundredths\<close> stays below 128 in every reachable
  state (lemma \<open>reachable_bcd_inv\<close> below).
\<close>

definition print_stopwatch_bcd :: "state \<Rightarrow> state" where
  "print_stopwatch_bcd s =
     (let s1 = set_vram_byte_xy 12 6
                 (of_char (MilTable128 ! unat (hundredths s) ! 0) - of_char (CHR ''0'')
                    + NUMBERS_BASE_TILE_IDX) s;
          s2 = set_vram_byte_xy 13 6
                 (of_char (MilTable128 ! unat (hundredths s1) ! 1) - of_char (CHR ''0'')
                    + NUMBERS_BASE_TILE_IDX) s1;
          s3 = set_vram_byte_xy 9 6 (bcd_tens (seconds s2) + NUMBERS_BASE_TILE_IDX) s2;
          s4 = set_vram_byte_xy 10 6 (bcd_ones (seconds s3) + NUMBERS_BASE_TILE_IDX) s3;
          s5 = set_vram_byte_xy 6 6 (bcd_tens (minutes s4) + NUMBERS_BASE_TILE_IDX) s4
      in set_vram_byte_xy 7 6 (bcd_ones (minutes s5) + NUMBERS_BASE_TILE_IDX) s5)"

subsection \<open>The consumer of the tick cue\<close>

definition handle_stopwatch_bin :: "state \<Rightarrow> state" where
  "handle_stopwatch_bin s =
     (if stopwatch s then
        (let s1 = print_stopwatch_bin s
         in if play_tick_sfx s1
            then (sfx_2 (VOLUME_LOW s1))\<lparr>play_tick_sfx := False\<rparr>
            else s1)
      else s)"

definition handle_stopwatch_bcd :: "state \<Rightarrow> state" where
  "handle_stopwatch_bcd s =
     (if stopwatch s then
        (let s1 = print_stopwatch_bcd s
         in if play_tick_sfx s1
            then (sfx_2 (VOLUME_LOW s1))\<lparr>play_tick_sfx := False\<rparr>
            else s1)
      else s)"

section \<open>Boot and main loop\<close>

definition init_game_bin :: "state \<Rightarrow> state" where
  "init_game_bin s = init_scene (set_timer_realtime_reg s)"

definition init_game_bcd :: "state \<Rightarrow> state" where
  "init_game_bcd s = init_scene (set_timer_reg_stopwatch s)"

text \<open>The state at power-on: C zero-initialises every global; registers and the tile
  map are taken as zero too.\<close>

definition power_on :: state where
  "power_on =
     \<lparr>is_gbc = False, is_cpu_fast = False, text_LUT_ascii_base_idx = 0, num_zeros = 0,
      stopwatch = False, play_tick_sfx = False, minutes = 0, seconds = 0, hundredths = 0,
      num_buffer_minutes = [], num_buffer_seconds = [], num_buffer_hundredths = [],
      prev_joypad = 0, TMA_REG = 0, TIMA_REG = 0, TAC_REG = 0,
      NR10_REG = 0, NR11_REG = 0, NR12_REG = 0, NR13_REG = 0, NR14_REG = 0,
      NR50_REG = 0, NR51_REG = 0, NR52_REG = 0, bkg = (\<lambda>_. 0)\<rparr>"

definition boot_bin :: "bool \<Rightarrow> state" where
  "boot_bin cgb = init_game_bin (init_system cgb power_on)"

definition boot_bcd :: "bool \<Rightarrow> state" where
  "boot_bcd cgb = init_game_bcd (init_system cgb power_on)"

text \<open>One pass of the body of \<open>while (TRUE)\<close> in \<open>main\<close>: \<open>handle_inputs (); vsync ();
  handle_stopwatch ()\<close>. The frame's three joypad readings are its input.\<close>

definition main_loop_frame_bin :: "u8 \<times> u8 \<times> u8 \<Rightarrow> state \<Rightarrow> state" where
  "main_loop_frame_bin j s =
     (case j of (j0, j1, j2) \<Rightarrow> handle_stopwatch_bin (handle_inputs_bin j0 j1 j2 s))"

definition main_loop_frame_bcd :: "u8 \<times> u8 \<times> u8 \<Rightarrow> state \<Rightarrow> state" where
  "main_loop_frame_bcd j s =
     (case j of (j0, j1, j2) \<Rightarrow> handle_stopwatch_bcd (handle_inputs_bcd j0 j1 j2 s))"

text \<open>The states the firmware can be in: the boot state, and whatever an interrupt,
  one of the three control routines, or a pass of the main loop makes of a reachable
  state.\<close>

inductive reachable_bin :: "state \<Rightarrow> bool" where
  rb_boot: "reachable_bin (boot_bin cgb)"
| rb_isr: "reachable_bin s \<Longrightarrow> reachable_bin (stopwatch_timer_isr_bin s)"
| rb_start: "reachable_bin s \<Longrightarrow> reachable_bin (start_stopwatch_bin s)"
| rb_pause: "reachable_bin s \<Longrightarrow> reachable_bin (pause_stopwatch s)"
| rb_reset: "reachable_bin s \<Longrightarrow> reachable_bin (reset_stopwatch s)"
| rb_frame: "reachable_bin s \<Longrightarrow> reachable_bin (main_loop_frame_bin j s)"

inductive reachable_bcd :: "state \<Rightarrow> bool" where
  rd_boot: "reachable_bcd (boot_bcd cgb)"
| rd_isr: "reachable_bcd s \<Longrightarrow> reachable_bcd (stopwatch_timer_isr_bcd s)"
| rd_start: "reachable_bcd s \<Longrightarrow> reachable_bcd (start_stopwatch_bcd s)"
| rd_pause: "reachable_bcd s \<Longrightarrow> reachable_bcd (pause_stopwatch s)"
| rd_reset: "reachable_bcd s \<Longrightarrow> reachable_bcd (reset_stopwatch s)"
| rd_frame: "reachable_bcd s \<Longrightarrow> reachable_bcd (main_loop_frame_bcd j s)"


section \<open>Notions used to state the properties\<close>

text \<open>Running the interrupt routine \<open>t\<close> times is \<open>(stopwatch_timer_isr_bin ^^ t) s\<close>.\<close>

text \<open>The number a packed byte stands for, read through the nibbles the display code
  extracts; a byte is packed BCD when both nibbles are decimal digits; \<open>to_bcd\<close> packs a
  number below 100.\<close>

definition bcd_value :: "u8 \<Rightarrow> nat" where
  "bcd_value x = 10 * unat (bcd_tens x) + unat (bcd_ones x)"

definition valid_bcd :: "u8 \<Rightarrow> bool" where
  "valid_bcd x = (bcd_tens x \<le> 9 \<and> bcd_ones x \<le> 9)"

definition to_bcd :: "nat \<Rightarrow> u8" where
  "to_bcd n = of_nat (16 * (n div 10) + n mod 10)"

text \<open>The counters have carried: the sub-unit is below its rate and the seconds are
  below 60 (as a packed byte in the BCD revision, where the minutes are packed too).\<close>

definition carried_bin :: "state \<Rightarrow> bool" where
  "carried_bin s = (unat (hundredths s) < 100 \<and> unat (seconds s) < 60)"

definition carried_bcd :: "state \<Rightarrow> bool" where
  "carried_bcd s =
     (unat (hundredths s) < 128 \<and> valid_bcd (seconds s) \<and> bcd_value (seconds s) < 60
      \<and> valid_bcd (minutes s))"

text \<open>The sub-unit ticks a state stands for.\<close>

definition total_bin :: "state \<Rightarrow> nat" where
  "total_bin s = (unat (minutes s) * 60 + unat (seconds s)) * 100 + unat (hundredths s)"

definition total_bcd :: "state \<Rightarrow> nat" where
  "total_bcd s =
     (bcd_value (minutes s) * 60 + bcd_value (seconds s)) * 128 + unat (hundredths s)"

text \<open>An invocation of the interrupt routine sets the cue flag when it leaves the flag
  set although it was clear before.\<close>

definition isr_sets_cue_bin :: "state \<Rightarrow> bool" where
  "isr_sets_cue_bin s = play_tick_sfx (stopwatch_timer_isr_bin (s\<lparr>play_tick_sfx := False\<rparr>))"

definition isr_sets_cue_bcd :: "state \<Rightarrow> bool" where
  "isr_sets_cue_bcd s = play_tick_sfx (stopwatch_timer_isr_bcd (s\<lparr>play_tick_sfx := False\<rparr>))"

text \<open>How many of the next \<open>t\<close> invocations set the cue flag.\<close>

fun cue_count_bin :: "nat \<Rightarrow> state \<Rightarrow> nat" where
  "cue_count_bin 0 s = 0"
| "cue_count_bin (Suc t) s =
     (if isr_sets_cue_bin s then 1 else 0) + cue_count_bin t (stopwatch_timer_isr_bin s)"

fun cue_count_bcd :: "nat \<Rightarrow> state \<Rightarrow> nat" where
  "cue_count_bcd 0 s = 0"
| "cue_count_bcd (Suc t) s =
     (if isr_sets_cue_bcd s then 1 else 0) + cue_count_bcd t (stopwatch_timer_isr_bcd s)"

text \<open>The cue is audible through the tone registers and the volume register.\<close>

definition sound_regs :: "state \<Rightarrow> u8 list" where
  "sound_regs s =
     [NR10_REG s, NR11_REG s, NR12_REG s, NR13_REG s, NR14_REG s, NR50_REG s]"

text \<open>The three counters of a state.\<close>

definition counters :: "state \<Rightarrow> u8 \<times> u8 \<times> u8" where
  "counters s = (minutes s, seconds s, hundredths s)"

text \<open>A press-edge of a button: its bit is set in the current reading and clear in the
  previous frame's mask.\<close>

definition press_edge :: "u8 \<Rightarrow> u8 \<Rightarrow> u8 \<Rightarrow> bool" where
  "press_edge button j prev = (j AND button \<noteq> 0 \<and> \<not> (prev AND button \<noteq> 0))"

text \<open>A frame in which the B button is not down in the reading that \<open>handle_inputs\<close>
  tests for it.\<close>

definition b_released :: "u8 \<times> u8 \<times> u8 \<Rightarrow> bool" where
  "b_released j = (case j of (j0, j1, j2) \<Rightarrow> j2 AND J_B = 0)"

text \<open>A frame in which the A button is not down in the reading tested for it.\<close>

definition a_released :: "u8 \<times> u8 \<times> u8 \<Rightarrow> bool" where
  "a_released j = (case j of (j0, j1, j2) \<Rightarrow> j1 AND J_A = 0)"

text \<open>The frames \<open>js\<close> run from \<open>s\<close> while the timer is stopped: the timer is stopped
  before each of them and after the last.\<close>

fun stopped_during_bin :: "(u8 \<times> u8 \<times> u8) list \<Rightarrow> state \<Rightarrow> bool" where
  "stopped_during_bin [] s = timer_stopped s"
| "stopped_during_bin (j # js) s =
     (timer_stopped s \<and> stopped_during_bin js (main_loop_frame_bin j s))"

fun stopped_during_bcd :: "(u8 \<times> u8 \<times> u8) list \<Rightarrow> state \<Rightarrow> bool" where
  "stopped_during_bcd [] s = timer_stopped s"
| "stopped_during_bcd (j # js) s =
     (timer_stopped s \<and> stopped_during_bcd js (main_loop_frame_bcd j s))"

text \<open>The modulo formula in the specification's words: 256 minus the base tick count
  divided by the speed factor, the speed factor being 1 at normal and 2 at double speed.\<close>

definition speedFactor :: "bool \<Rightarrow> nat" where
  "speedFactor fast = (if fast then 2 else 1)"

definition spec_modulo :: "nat \<Rightarrow> bool \<Rightarrow> nat" where
  "spec_modulo baseTicks fast = 256 - baseTicks div speedFactor fast"

text \<open>What the BCD revision computes instead: the base tick count times the speed
  factor.\<close>

definition scaled_modulo :: "nat \<Rightarrow> bool \<Rightarrow> nat" where
  "scaled_modulo baseTicks fast = 256 - baseTicks * speedFactor fast"

text \<open>The hundredths shown for a sub-unit value: the two characters of the table read
  as decimal digits.\<close>

definition mil_shown :: "nat \<Rightarrow> nat" where
  "mil_shown v =
     10 * (of_char (MilTable128 ! v ! 0) - 48) + (of_char (MilTable128 ! v ! 1) - 48)"


text \<open>A running state that stands for \<open>T\<close> elapsed sub-unit ticks: the shape of the
  invariant of the tick loop. The binary minutes are a byte; the packed minutes run to
  99.\<close>

definition rep_bin :: "nat \<Rightarrow> state \<Rightarrow> bool" where
  "rep_bin T s =
     (stopwatch s \<and> hundredths s = of_nat (T mod 100)
      \<and> seconds s = of_nat (T div 100 mod 60) \<and> minutes s = of_nat (T div 100 div 60))"

definition rep_bcd :: "nat \<Rightarrow> state \<Rightarrow> bool" where
  "rep_bcd T s =
     (stopwatch s \<and> hundredths s = of_nat (T mod 128)
      \<and> seconds s = to_bcd (T div 128 mod 60)
      \<and> minutes s = to_bcd (T div 128 div 60 mod 100))"

text \<open>
  The rate of the timer's input clock in Hz, from the table in the notes of
  \<^verbatim>\<open>main.c\<close> (selected by the two low bits of \<open>TAC_REG\<close>, at normal CPU speed); at
  double speed the CPU clock, and with it the timer clock, is twice as fast (the
  comment in \<open>set_timer_reg_stopwatch\<close>: divide by 32, "or by 64 if on GBC"). The
  timer overflows, and requests the interrupt, every \<open>256 - TMA_REG\<close> input ticks.
\<close>

definition timer_clock_hz :: "u8 \<Rightarrow> bool \<Rightarrow> nat" where
  "timer_clock_hz tac fast =
     (if tac AND 0x03 = 0 then 4096
      else if tac AND 0x03 = 1 then 262144
      else if tac AND 0x03 = 2 then 65536
      else 16384) * speedFactor fast"

definition ticks_per_overflow :: "state \<Rightarrow> nat" where
  "ticks_per_overflow s = 256 - unat (TMA_REG s)"

section \<open>Packed BCD arithmetic\<close>

lemma ones_unat: "unat (bcd_ones x) = unat x mod 16"
proof -
  have "bcd_ones x = take_bit 4 x"
    by (simp add: bcd_ones_def take_bit_eq_mask mask_eq_exp_minus_1)
  then show ?thesis
    by (simp add: unsigned_take_bit_eq take_bit_eq_mod unat_word_ariths)
qed

lemma tens_unat: "unat (bcd_tens x) = unat x div 16"
proof -
  have "bcd_tens x = take_bit 4 (drop_bit 4 x)"
    by (simp add: bcd_tens_def take_bit_eq_mask mask_eq_exp_minus_1)
  moreover have "unat x < 256" using unsigned_less [of x] by simp
  ultimately show ?thesis
    by (simp add: unsigned_take_bit_eq take_bit_eq_mod unsigned_drop_bit_eq drop_bit_eq_div unat_word_ariths)
qed

lemma bcd_value_unat: "bcd_value x = 10 * (unat x div 16) + unat x mod 16"
  by (simp add: bcd_value_def ones_unat tens_unat)

lemma valid_bcd_unat: "valid_bcd x = (unat x div 16 \<le> 9 \<and> unat x mod 16 \<le> 9)"
  by (simp add: valid_bcd_def word_le_nat_alt ones_unat tens_unat)

lemma unat_to_bcd:
  assumes "n < 100"
  shows "unat (to_bcd n) = 16 * (n div 10) + n mod 10"
proof -
  have "16 * (n div 10) + n mod 10 < 256" using assms by arith
  moreover have "unat (to_bcd n) = (16 * (n div 10) + n mod 10) mod 256"
    unfolding to_bcd_def by (simp only: unat_of_nat) simp
  ultimately show ?thesis by simp
qed

lemma to_bcd_valid:
  assumes "n < 100"
  shows "valid_bcd (to_bcd n) \<and> bcd_value (to_bcd n) = n"
proof -
  have "(16 * (n div 10) + n mod 10) div 16 = n div 10" by simp
  moreover have "(16 * (n div 10) + n mod 10) mod 16 = n mod 10" by simp
  moreover have "n div 10 \<le> 9" using assms by arith
  ultimately show ?thesis
    using assms by (simp add: valid_bcd_unat bcd_value_unat unat_to_bcd)
qed

lemma valid_bcd_to_bcd:
  assumes "valid_bcd x"
  shows "bcd_value x < 100 \<and> to_bcd (bcd_value x) = x"
proof -
  from assms have a: "unat x div 16 \<le> 9" and b: "unat x mod 16 \<le> 9" by (simp_all add: valid_bcd_unat)
  have v: "bcd_value x < 100" using a b by (simp add: bcd_value_unat)
  have "(10 * (unat x div 16) + unat x mod 16) div 10 = unat x div 16" using b by simp
  moreover have "(10 * (unat x div 16) + unat x mod 16) mod 10 = unat x mod 16" using b by simp
  ultimately have "unat (to_bcd (bcd_value x)) = unat x"
    using v by (simp add: unat_to_bcd) (simp add: bcd_value_unat)
  then show ?thesis using v by (simp add: word_unat_eq_iff)
qed


lemma enum_lt: "n < k \<Longrightarrow> \<forall>m\<in>set [0..<k]. P m \<Longrightarrow> P n"
  by simp

lemma bcdIncrement_enum:
  "\<forall>n\<in>set [0..<100]. bcdIncrement (to_bcd n) = to_bcd (Suc n mod 100)"
  by (simp add: upt_rec bcdIncrement_def to_bcd_def daa_def add_imm_def)

lemma bcdIncrement_to_bcd: "n < 100 \<Longrightarrow> bcdIncrement (to_bcd n) = to_bcd (Suc n mod 100)"
  by (rule enum_lt [OF _ bcdIncrement_enum])

lemma mask_enum: "\<forall>n\<in>set [0..<128]. (of_nat n + 1 :: u8) AND 0x7F = of_nat (Suc n mod 128)"
  by (simp add: upt_rec)

lemma mask_step: "n < 128 \<Longrightarrow> (of_nat n + 1 :: u8) AND 0x7F = of_nat (Suc n mod 128)"
  by (rule enum_lt [OF _ mask_enum])

section \<open>One interrupt, in closed form\<close>

lemma u8_le_of_nat: "n < 256 \<Longrightarrow> k < 256 \<Longrightarrow> ((of_nat k :: u8) \<le> of_nat n) = (k \<le> n)"
  by (simp add: word_le_nat_alt unat_of_nat)

lemma isr_bin_step:
  assumes "stopwatch s" "hundredths s = of_nat a" "a < 100" "seconds s = of_nat b" "b < 60"
  shows "stopwatch_timer_isr_bin s =
     (if a = 99 then
        (if b = 59 then s\<lparr>hundredths := 0, seconds := 0, play_tick_sfx := True, minutes := minutes s + 1\<rparr>
         else s\<lparr>hundredths := 0, seconds := of_nat (Suc b), play_tick_sfx := True\<rparr>)
      else s\<lparr>hundredths := of_nat (Suc a)\<rparr>)"
proof -
  have h: "hundredths s + 1 = of_nat (Suc a)" using assms by simp
  have ht: "(100 \<le> (of_nat (Suc a) :: u8)) = (a = 99)"
    using assms u8_le_of_nat [of "Suc a" 100] by auto
  have c: "seconds s + 1 = of_nat (Suc b)" using assms by simp
  have ct: "(60 \<le> (of_nat (Suc b) :: u8)) = (b = 59)"
    using assms u8_le_of_nat [of "Suc b" 60] by auto
  show ?thesis
    unfolding stopwatch_timer_isr_bin_def
    using assms(1) by (simp add: Let_def h ht c ct del: of_nat_Suc)
qed



lemma rollover_test: 
  assumes "n < 60" shows "(0x60 \<le> to_bcd (Suc n)) = (n = 59)"
proof (cases "n = 59")
  case True
  then show ?thesis by (simp add: to_bcd_def)
next
  case False
  with assms have "Suc n div 10 \<le> 5" by simp
  moreover have "Suc n mod 10 \<le> 9" by simp
  ultimately have "16 * (Suc n div 10) + Suc n mod 10 < 96" by linarith
  then show ?thesis using assms False by (simp add: word_le_nat_alt unat_to_bcd)
qed

lemma to_bcd_0: "to_bcd 0 = 0" by (simp add: to_bcd_def)

lemma of_nat_u8_eq0: "n < 256 \<Longrightarrow> ((of_nat n :: u8) = 0) = (n = 0)"
  by (simp add: word_unat_eq_iff unat_of_nat)

lemma isr_bcd_step:
  assumes "stopwatch s" "hundredths s = of_nat a" "a < 128" "seconds s = to_bcd b" "b < 60"
  shows "stopwatch_timer_isr_bcd s =
     (if a = 127 then
        (if b = 59 then s\<lparr>hundredths := 0, seconds := 0, play_tick_sfx := True, minutes := bcdIncrement (minutes s)\<rparr>
         else s\<lparr>hundredths := 0, seconds := to_bcd (Suc b), play_tick_sfx := True\<rparr>)
      else s\<lparr>hundredths := of_nat (Suc a)\<rparr>)"
proof -
  have h: "(hundredths s + 1) AND 0x7F = of_nat (Suc a mod 128)"
    using assms by (simp add: mask_step)
  have z0: "(Suc a mod 128 = 0) = (a = 127)" using assms by (auto simp: mod_Suc)
  have z: "((of_nat (Suc a mod 128) :: u8) = 0) = (a = 127)"
    using z0 by (subst of_nat_u8_eq0) simp_all
  have z1: "a \<noteq> 127 \<Longrightarrow> Suc a mod 128 = Suc a" using assms by simp
  have i: "bcdIncrement (seconds s) = to_bcd (Suc b)"
    using assms by (simp add: bcdIncrement_to_bcd)
  show ?thesis
    unfolding stopwatch_timer_isr_bcd_def
    using assms(1) rollover_test [OF assms(5)]
    by (simp add: Let_def h i z z1 del: of_nat_Suc)
qed

section \<open>The tick loop\<close>

lemma Suc_mod_if: "0 < n \<Longrightarrow> Suc T mod n = (if T mod n = n - 1 then 0 else Suc (T mod n))"
  by (auto simp: mod_Suc)

lemma Suc_div_if: "0 < n \<Longrightarrow> Suc T div n = (if T mod n = n - 1 then Suc (T div n) else T div n)"
  by (auto simp: div_Suc mod_Suc)

lemma rep_bin_step:
  assumes "rep_bin T s"
  shows "rep_bin (Suc T) (stopwatch_timer_isr_bin s)"
proof -
  let ?a = "T mod 100" and ?b = "T div 100 mod 60"
  from assms have s: "stopwatch s" "hundredths s = of_nat ?a" "seconds s = of_nat ?b"
    and m: "minutes s = of_nat (T div 100 div 60)"
    by (simp_all add: rep_bin_def)
  have lt: "?a < 100" "?b < 60" by simp_all
  note step = isr_bin_step [OF s(1) s(2) lt(1) s(3) lt(2)]
  show ?thesis
  proof (cases "?a = 99")
    case False
    then show ?thesis
      using s m by (simp add: step rep_bin_def Suc_mod_if Suc_div_if del: of_nat_Suc)
  next
    case a: True
    show ?thesis
    proof (cases "?b = 59")
      case False
      then show ?thesis
        using a s m by (simp add: step rep_bin_def Suc_mod_if Suc_div_if del: of_nat_Suc)
    next
      case True
      then show ?thesis
        using a s m by (simp add: step rep_bin_def Suc_mod_if Suc_div_if)
    qed
  qed
qed

lemma rep_bin_funpow: "rep_bin T s \<Longrightarrow> rep_bin (T + t) ((stopwatch_timer_isr_bin ^^ t) s)"
  by (induction t) (simp_all add: rep_bin_step)

lemma rep_bcd_step:
  assumes "rep_bcd T s"
  shows "rep_bcd (Suc T) (stopwatch_timer_isr_bcd s)"
proof -
  let ?a = "T mod 128" and ?b = "T div 128 mod 60" and ?c = "T div 128 div 60 mod 100"
  from assms have s: "stopwatch s" "hundredths s = of_nat ?a" "seconds s = to_bcd ?b"
    and m: "minutes s = to_bcd ?c"
    by (simp_all add: rep_bcd_def)
  have lt: "?a < 128" "?b < 60" "?c < 100" by simp_all
  note step = isr_bcd_step [OF s(1) s(2) lt(1) s(3) lt(2)]
  show ?thesis
  proof (cases "?a = 127")
    case False
    then show ?thesis
      using s m by (simp add: step rep_bcd_def Suc_mod_if Suc_div_if del: of_nat_Suc)
  next
    case a: True
    show ?thesis
    proof (cases "?b = 59")
      case False
      then show ?thesis
        using a s m by (simp add: step rep_bcd_def Suc_mod_if Suc_div_if)
    next
      case True
      have "bcdIncrement (to_bcd ?c) = to_bcd (Suc ?c mod 100)"
        by (rule bcdIncrement_to_bcd [OF lt(3)])
      moreover have "Suc ?c mod 100 = Suc (T div 128 div 60) mod 100"
        by (simp add: mod_Suc_eq)
      ultimately show ?thesis
        using True a s m by (simp add: step rep_bcd_def Suc_mod_if Suc_div_if to_bcd_0)
    qed
  qed
qed

lemma rep_bcd_funpow: "rep_bcd T s \<Longrightarrow> rep_bcd (T + t) ((stopwatch_timer_isr_bcd ^^ t) s)"
  by (induction t) (simp_all add: rep_bcd_step)

lemma rep_bin_zero: "stopwatch s \<Longrightarrow> counters s = (0, 0, 0) \<Longrightarrow> rep_bin 0 s"
  by (simp add: rep_bin_def counters_def)

lemma rep_bcd_zero: "stopwatch s \<Longrightarrow> counters s = (0, 0, 0) \<Longrightarrow> rep_bcd 0 s"
  by (simp add: rep_bcd_def counters_def to_bcd_0)

lemma unat_of_nat_u8: "n < 256 \<Longrightarrow> unat (of_nat n :: u8) = n"
  by (simp add: unat_of_nat)

lemma rep_bin_fields:
  assumes "rep_bin T s"
  shows "unat (hundredths s) = T mod 100" "unat (seconds s) = T div 100 mod 60"
    "unat (minutes s) = T div 6000 mod 256"
proof -
  have "T mod 100 < 256" by (rule less_trans [of _ 100]) simp_all
  then show "unat (hundredths s) = T mod 100"
    using assms by (simp add: rep_bin_def unat_of_nat_u8)
  have "T div 100 mod 60 < 256" by (rule less_trans [of _ 60]) simp_all
  then show "unat (seconds s) = T div 100 mod 60"
    using assms by (simp add: rep_bin_def unat_of_nat_u8)
  have "T div 100 div 60 = T div 6000" by (simp add: div_mult2_eq [symmetric])
  then show "unat (minutes s) = T div 6000 mod 256"
    using assms by (simp add: rep_bin_def unat_of_nat)
qed

lemma rep_bcd_fields:
  assumes "rep_bcd T s"
  shows "unat (hundredths s) = T mod 128"
    "valid_bcd (seconds s)" "bcd_value (seconds s) = T div 128 mod 60"
    "valid_bcd (minutes s)" "bcd_value (minutes s) = T div 7680 mod 100"
proof -
  have "T mod 128 < 256" by (rule less_trans [of _ 128]) simp_all
  then show "unat (hundredths s) = T mod 128"
    using assms by (simp add: rep_bcd_def unat_of_nat_u8)
  have b: "T div 128 mod 60 < 100" by (rule less_trans [of _ 60]) simp_all
  show "valid_bcd (seconds s)" "bcd_value (seconds s) = T div 128 mod 60"
    using assms to_bcd_valid [OF b] by (simp_all add: rep_bcd_def)
  have c: "T div 128 div 60 mod 100 < 100" by simp
  have "T div 128 div 60 = T div 7680" by (simp add: div_mult2_eq [symmetric])
  then show "valid_bcd (minutes s)" "bcd_value (minutes s) = T div 7680 mod 100"
    using assms to_bcd_valid [OF c] by (simp_all add: rep_bcd_def)
qed

section \<open>Effects of the routines on single fields\<close>

lemmas routine_defs =
  start_stopwatch_bin_def start_stopwatch_bcd_def pause_stopwatch_def reset_stopwatch_def
  printf_xy_def set_vram_byte_xy_def sfx_1_def sfx_2_def sfx_4_def VOLUME_MAX_def
  VOLUME_LOW_def Let_def

lemmas boot_defs =
  boot_bin_def boot_bcd_def init_game_bin_def init_game_bcd_def init_scene_def
  set_timer_realtime_reg_def set_timer_reg_stopwatch_def init_system_def SOUND_ON_def
  init_bkg_def set_cpu_def power_on_def printf_xy_def

lemma start_stopwatch_fields:
  "stopwatch (start_stopwatch_bin s)" "counters (start_stopwatch_bin s) = counters s"
  "stopwatch (start_stopwatch_bcd s)" "counters (start_stopwatch_bcd s) = counters s"
  by (simp_all add: routine_defs counters_def)

lemma boot_fields:
  "counters (boot_bin cgb) = (0, 0, 0)" "\<not> stopwatch (boot_bin cgb)"
  "counters (boot_bcd cgb) = (0, 0, 0)" "\<not> stopwatch (boot_bcd cgb)"
  by (simp_all add: boot_defs counters_def)

section \<open>Elapsed time after \<open>t\<close> interrupts\<close>

text \<open>
  Claim C1. Start from a running state whose three counters are zero and invoke the
  interrupt routine \<open>t\<close> times. In the binary revision (N = 100), for every
  \<open>t < 100 * 3600\<close> the minutes are \<open>(t div (N * 60)) mod 60\<close>, the seconds
  \<open>(t div N) mod 60\<close> and the sub-unit \<open>t mod N\<close>. In the BCD revision (N = 128), for
  every \<open>t < 128 * 3600\<close> the same holds, the minutes and seconds bytes being valid
  packed BCD whose decimal reading is that number.
\<close>

theorem isr_elapsed_time:
  assumes "stopwatch s" and "counters s = (0, 0, 0)"
  shows "(t < 100 * 3600 \<longrightarrow>
           unat (minutes ((stopwatch_timer_isr_bin ^^ t) s)) = (t div (100 * 60)) mod 60
         \<and> unat (seconds ((stopwatch_timer_isr_bin ^^ t) s)) = (t div 100) mod 60
         \<and> unat (hundredths ((stopwatch_timer_isr_bin ^^ t) s)) = t mod 100)
       \<and> (t < 128 * 3600 \<longrightarrow>
           valid_bcd (minutes ((stopwatch_timer_isr_bcd ^^ t) s))
         \<and> bcd_value (minutes ((stopwatch_timer_isr_bcd ^^ t) s)) = (t div (128 * 60)) mod 60
         \<and> valid_bcd (seconds ((stopwatch_timer_isr_bcd ^^ t) s))
         \<and> bcd_value (seconds ((stopwatch_timer_isr_bcd ^^ t) s)) = (t div 128) mod 60
         \<and> unat (hundredths ((stopwatch_timer_isr_bcd ^^ t) s)) = t mod 128)"
proof (intro conjI impI)
  have rb: "rep_bin t ((stopwatch_timer_isr_bin ^^ t) s)"
    using rep_bin_funpow [OF rep_bin_zero [OF assms], of t] by simp
  have rd: "rep_bcd t ((stopwatch_timer_isr_bcd ^^ t) s)"
    using rep_bcd_funpow [OF rep_bcd_zero [OF assms], of t] by simp
  show "unat (seconds ((stopwatch_timer_isr_bin ^^ t) s)) = (t div 100) mod 60"
    by (rule rep_bin_fields(2) [OF rb])
  show "unat (hundredths ((stopwatch_timer_isr_bin ^^ t) s)) = t mod 100"
    by (rule rep_bin_fields(1) [OF rb])
  show "valid_bcd (minutes ((stopwatch_timer_isr_bcd ^^ t) s))"
    by (rule rep_bcd_fields(4) [OF rd])
  show "valid_bcd (seconds ((stopwatch_timer_isr_bcd ^^ t) s))"
    by (rule rep_bcd_fields(2) [OF rd])
  show "bcd_value (seconds ((stopwatch_timer_isr_bcd ^^ t) s)) = (t div 128) mod 60"
    by (rule rep_bcd_fields(3) [OF rd])
  show "unat (hundredths ((stopwatch_timer_isr_bcd ^^ t) s)) = t mod 128"
    by (rule rep_bcd_fields(1) [OF rd])
  {
    assume "t < 100 * 3600"
    then have "t div 6000 < 60" by simp
    then have "t div 6000 mod 256 = t div 6000 mod 60" by simp
    then show "unat (minutes ((stopwatch_timer_isr_bin ^^ t) s)) = (t div (100 * 60)) mod 60"
      using rep_bin_fields(3) [OF rb] by simp
  }
  {
    assume "t < 128 * 3600"
    then have "t div 7680 < 60" by simp
    then have "t div 7680 mod 100 = t div 7680 mod 60" by simp
    then show "bcd_value (minutes ((stopwatch_timer_isr_bcd ^^ t) s)) = (t div (128 * 60)) mod 60"
      using rep_bcd_fields(5) [OF rd] by simp
  }
qed

theorem isr_elapsed_time_witness:
  "stopwatch (start_stopwatch_bin (boot_bin False))
   \<and> counters (start_stopwatch_bin (boot_bin False)) = (0, 0, 0)
   \<and> unat (minutes ((stopwatch_timer_isr_bin ^^ 6000) (start_stopwatch_bin (boot_bin False)))) = 1
   \<and> unat (seconds ((stopwatch_timer_isr_bin ^^ 6000) (start_stopwatch_bin (boot_bin False)))) = 0
   \<and> unat (hundredths ((stopwatch_timer_isr_bin ^^ 6000) (start_stopwatch_bin (boot_bin False)))) = 0
   \<and> stopwatch (start_stopwatch_bcd (boot_bcd True))
   \<and> counters (start_stopwatch_bcd (boot_bcd True)) = (0, 0, 0)
   \<and> bcd_value (minutes ((stopwatch_timer_isr_bcd ^^ 7808) (start_stopwatch_bcd (boot_bcd True)))) = 1
   \<and> bcd_value (seconds ((stopwatch_timer_isr_bcd ^^ 7808) (start_stopwatch_bcd (boot_bcd True)))) = 1
   \<and> unat (hundredths ((stopwatch_timer_isr_bcd ^^ 7808) (start_stopwatch_bcd (boot_bcd True)))) = 0"
proof -
  have a: "stopwatch (start_stopwatch_bin (boot_bin False))"
    and b: "counters (start_stopwatch_bin (boot_bin False)) = (0, 0, 0)"
    and c: "stopwatch (start_stopwatch_bcd (boot_bcd True))"
    and d: "counters (start_stopwatch_bcd (boot_bcd True)) = (0, 0, 0)"
    by (simp_all add: start_stopwatch_fields boot_fields)
  show ?thesis
    using a b c d isr_elapsed_time [OF a b, of 6000] isr_elapsed_time [OF c d, of 7808]
    by simp
qed

section \<open>The counters have carried in every reachable state\<close>

lemma carried_bin_counters: "counters s' = counters s \<Longrightarrow> carried_bin s' = carried_bin s"
  by (simp add: carried_bin_def counters_def)

lemma carried_bcd_counters: "counters s' = counters s \<Longrightarrow> carried_bcd s' = carried_bcd s"
  by (simp add: carried_bcd_def counters_def)

lemma valid_bcd_0: "valid_bcd 0" "bcd_value 0 = 0"
  by (simp_all add: valid_bcd_unat bcd_value_unat)

lemma carried_zero:
  "counters s = (0, 0, 0) \<Longrightarrow> carried_bin s" "counters s = (0, 0, 0) \<Longrightarrow> carried_bcd s"
  by (simp_all add: carried_bin_def carried_bcd_def counters_def valid_bcd_0)

lemma isr_bin_carried:
  assumes "stopwatch s" "carried_bin s"
  shows "stopwatch_timer_isr_bin s =
     (if unat (hundredths s) = 99 then
        (if unat (seconds s) = 59
         then s\<lparr>hundredths := 0, seconds := 0, play_tick_sfx := True, minutes := minutes s + 1\<rparr>
         else s\<lparr>hundredths := 0, seconds := of_nat (Suc (unat (seconds s))), play_tick_sfx := True\<rparr>)
      else s\<lparr>hundredths := of_nat (Suc (unat (hundredths s)))\<rparr>)"
  using assms by (intro isr_bin_step) (simp_all add: carried_bin_def)

lemma isr_bcd_carried:
  assumes "stopwatch s" "carried_bcd s"
  shows "stopwatch_timer_isr_bcd s =
     (if unat (hundredths s) = 127 then
        (if bcd_value (seconds s) = 59
         then s\<lparr>hundredths := 0, seconds := 0, play_tick_sfx := True,
                 minutes := bcdIncrement (minutes s)\<rparr>
         else s\<lparr>hundredths := 0, seconds := to_bcd (Suc (bcd_value (seconds s))),
                 play_tick_sfx := True\<rparr>)
      else s\<lparr>hundredths := of_nat (Suc (unat (hundredths s)))\<rparr>)"
  using assms valid_bcd_to_bcd [of "seconds s"]
  by (intro isr_bcd_step) (simp_all add: carried_bcd_def)

lemma bcdIncrement_valid:
  assumes "valid_bcd x"
  shows "valid_bcd (bcdIncrement x)" "bcd_value (bcdIncrement x) = Suc (bcd_value x) mod 100"
proof -
  from valid_bcd_to_bcd [OF assms] have lt: "bcd_value x < 100" and x: "to_bcd (bcd_value x) = x"
    by simp_all
  have "bcdIncrement x = to_bcd (Suc (bcd_value x) mod 100)"
    using bcdIncrement_to_bcd [OF lt] x by simp
  moreover have "Suc (bcd_value x) mod 100 < 100" by simp
  ultimately show "valid_bcd (bcdIncrement x)"
    "bcd_value (bcdIncrement x) = Suc (bcd_value x) mod 100"
    using to_bcd_valid [of "Suc (bcd_value x) mod 100"] by simp_all
qed

lemma isr_bin_idle: "\<not> stopwatch s \<Longrightarrow> stopwatch_timer_isr_bin s = s"
  by (simp add: stopwatch_timer_isr_bin_def)

lemma isr_bcd_idle: "\<not> stopwatch s \<Longrightarrow> stopwatch_timer_isr_bcd s = s"
  by (simp add: stopwatch_timer_isr_bcd_def)

lemma isr_bin_keeps_carried:
  assumes "carried_bin s"
  shows "carried_bin (stopwatch_timer_isr_bin s)"
proof (cases "stopwatch s")
  case False
  then show ?thesis using assms by (simp add: isr_bin_idle)
next
  case True
  have a: "unat (hundredths s) \<noteq> 99 \<Longrightarrow> Suc (unat (hundredths s)) < 100"
    and b: "unat (seconds s) \<noteq> 59 \<Longrightarrow> Suc (unat (seconds s)) < 60"
    using assms by (simp_all add: carried_bin_def)
  show ?thesis
    using assms a b
    by (simp add: isr_bin_carried [OF True assms] carried_bin_def unat_of_nat del: of_nat_Suc)
qed

lemma isr_bcd_keeps_carried:
  assumes "carried_bcd s"
  shows "carried_bcd (stopwatch_timer_isr_bcd s)"
proof (cases "stopwatch s")
  case False
  then show ?thesis using assms by (simp add: isr_bcd_idle)
next
  case True
  have a: "unat (hundredths s) \<noteq> 127 \<Longrightarrow> Suc (unat (hundredths s)) < 128"
    and b: "bcd_value (seconds s) \<noteq> 59 \<Longrightarrow> Suc (bcd_value (seconds s)) < 60"
    and m: "valid_bcd (minutes s)"
    using assms by (simp_all add: carried_bcd_def)
  have c: "bcd_value (seconds s) \<noteq> 59 \<Longrightarrow> Suc (bcd_value (seconds s)) < 100"
    using b by simp
  show ?thesis
    using assms a b to_bcd_valid [OF c] bcdIncrement_valid(1) [OF m]
    by (simp add: isr_bcd_carried [OF True assms] carried_bcd_def unat_of_nat valid_bcd_0
        del: of_nat_Suc)
qed

lemma print_stopwatch_bin_fields:
  "counters (print_stopwatch_bin s) = counters s"
  "stopwatch (print_stopwatch_bin s) = stopwatch s"
  "play_tick_sfx (print_stopwatch_bin s) = play_tick_sfx s"
  "sound_regs (print_stopwatch_bin s) = sound_regs s"
  "TAC_REG (print_stopwatch_bin s) = TAC_REG s"
  "TMA_REG (print_stopwatch_bin s) = TMA_REG s"
  "TIMA_REG (print_stopwatch_bin s) = TIMA_REG s"
  by (simp_all add: print_stopwatch_bin_def draw_numbers_ascii_def set_vram_byte_xy_def
      Let_def counters_def sound_regs_def)

lemma print_stopwatch_bcd_fields:
  "counters (print_stopwatch_bcd s) = counters s"
  "stopwatch (print_stopwatch_bcd s) = stopwatch s"
  "play_tick_sfx (print_stopwatch_bcd s) = play_tick_sfx s"
  "sound_regs (print_stopwatch_bcd s) = sound_regs s"
  "TAC_REG (print_stopwatch_bcd s) = TAC_REG s"
  "TMA_REG (print_stopwatch_bcd s) = TMA_REG s"
  "TIMA_REG (print_stopwatch_bcd s) = TIMA_REG s"
  by (simp_all add: print_stopwatch_bcd_def set_vram_byte_xy_def
      Let_def counters_def sound_regs_def)

lemma handle_stopwatch_fields:
  "counters (handle_stopwatch_bin s) = counters s"
  "stopwatch (handle_stopwatch_bin s) = stopwatch s"
  "TAC_REG (handle_stopwatch_bin s) = TAC_REG s"
  "TMA_REG (handle_stopwatch_bin s) = TMA_REG s"
  "TIMA_REG (handle_stopwatch_bin s) = TIMA_REG s"
  "counters (handle_stopwatch_bcd s) = counters s"
  "stopwatch (handle_stopwatch_bcd s) = stopwatch s"
  "TAC_REG (handle_stopwatch_bcd s) = TAC_REG s"
  "TMA_REG (handle_stopwatch_bcd s) = TMA_REG s"
  "TIMA_REG (handle_stopwatch_bcd s) = TIMA_REG s"
  using print_stopwatch_bin_fields [of s] print_stopwatch_bcd_fields [of s]
  by (simp_all add: handle_stopwatch_bin_def handle_stopwatch_bcd_def Let_def counters_def
      sfx_2_def VOLUME_LOW_def)

lemma pause_reset_fields:
  "counters (pause_stopwatch s) = counters s" "\<not> stopwatch (pause_stopwatch s)"
  "counters (reset_stopwatch s) = (0, 0, 0)" "\<not> stopwatch (reset_stopwatch s)"
  by (simp_all add: routine_defs counters_def)

lemma handle_inputs_counters:
  "counters (handle_inputs_bin j0 j1 j2 s) = counters s
   \<or> counters (handle_inputs_bin j0 j1 j2 s) = (0, 0, 0)"
  "counters (handle_inputs_bcd j0 j1 j2 s) = counters s
   \<or> counters (handle_inputs_bcd j0 j1 j2 s) = (0, 0, 0)"
  using pause_reset_fields(1,3) start_stopwatch_fields(2,4)
  by (simp_all add: handle_inputs_bin_def handle_inputs_bcd_def Let_def counters_def)

lemma frame_counters:
  "counters (main_loop_frame_bin j s) = counters s
   \<or> counters (main_loop_frame_bin j s) = (0, 0, 0)"
  "counters (main_loop_frame_bcd j s) = counters s
   \<or> counters (main_loop_frame_bcd j s) = (0, 0, 0)"
  using handle_inputs_counters
  by (simp_all add: main_loop_frame_bin_def main_loop_frame_bcd_def handle_stopwatch_fields
      split: prod.split)

lemma reachable_bin_inv: "reachable_bin s \<Longrightarrow> carried_bin s"
proof (induction rule: reachable_bin.induct)
  case (rb_boot cgb)
  show ?case by (rule carried_zero) (rule boot_fields)
next
  case (rb_isr s)
  then show ?case by (simp add: isr_bin_keeps_carried)
next
  case (rb_start s)
  then show ?case by (simp add: carried_bin_counters [OF start_stopwatch_fields(2)])
next
  case (rb_pause s)
  then show ?case by (simp add: carried_bin_counters [OF pause_reset_fields(1)])
next
  case (rb_reset s)
  show ?case by (rule carried_zero) (rule pause_reset_fields)
next
  case (rb_frame s j)
  then show ?case
    using frame_counters(1) [of j s] carried_bin_counters carried_zero(1) by blast
qed

lemma reachable_bcd_inv: "reachable_bcd s \<Longrightarrow> carried_bcd s"
proof (induction rule: reachable_bcd.induct)
  case (rd_boot cgb)
  show ?case by (rule carried_zero) (rule boot_fields)
next
  case (rd_isr s)
  then show ?case by (simp add: isr_bcd_keeps_carried)
next
  case (rd_start s)
  then show ?case by (simp add: carried_bcd_counters [OF start_stopwatch_fields(4)])
next
  case (rd_pause s)
  then show ?case by (simp add: carried_bcd_counters [OF pause_reset_fields(1)])
next
  case (rd_reset s)
  show ?case by (rule carried_zero) (rule pause_reset_fields)
next
  case (rd_frame s j)
  then show ?case
    using frame_counters(2) [of j s] carried_bcd_counters carried_zero(2) by blast
qed

section \<open>One invocation is one tick\<close>

lemma isr_sets_cue_bin_iff:
  assumes "stopwatch s" "carried_bin s"
  shows "isr_sets_cue_bin s = (unat (hundredths s) = 99)"
proof -
  have "stopwatch (s\<lparr>play_tick_sfx := False\<rparr>)" "carried_bin (s\<lparr>play_tick_sfx := False\<rparr>)"
    using assms by (simp_all add: carried_bin_def)
  from isr_bin_carried [OF this] show ?thesis
    by (simp add: isr_sets_cue_bin_def)
qed

lemma isr_sets_cue_bcd_iff:
  assumes "stopwatch s" "carried_bcd s"
  shows "isr_sets_cue_bcd s = (unat (hundredths s) = 127)"
proof -
  have "stopwatch (s\<lparr>play_tick_sfx := False\<rparr>)" "carried_bcd (s\<lparr>play_tick_sfx := False\<rparr>)"
    using assms by (simp_all add: carried_bcd_def)
  from isr_bcd_carried [OF this] show ?thesis
    by (simp add: isr_sets_cue_bcd_def)
qed

lemma isr_bin_tick:
  assumes run: "stopwatch s" and car: "carried_bin s"
  shows "unat (hundredths (stopwatch_timer_isr_bin s)) = Suc (unat (hundredths s)) mod 100"
    and "total_bin (stopwatch_timer_isr_bin s) = Suc (total_bin s) mod (256 * 60 * 100)"
    and "isr_sets_cue_bin s = (seconds (stopwatch_timer_isr_bin s) \<noteq> seconds s)"
    and "play_tick_sfx (stopwatch_timer_isr_bin s) = (play_tick_sfx s \<or> isr_sets_cue_bin s)"
proof -
  let ?a = "unat (hundredths s)" and ?b = "unat (seconds s)" and ?m = "unat (minutes s)"
  note step = isr_bin_carried [OF run car]
  note cue = isr_sets_cue_bin_iff [OF run car]
  have a: "?a < 100" and b: "?b < 60" using car by (simp_all add: carried_bin_def)
  have m: "?m < 256" using unsigned_less [of "minutes s"] by simp
  have m1: "unat (minutes s + 1) = Suc ?m mod 256" by (simp add: unat_word_ariths)
  have ua: "?a \<noteq> 99 \<Longrightarrow> unat (of_nat (Suc ?a) :: u8) = Suc ?a"
    using a by (simp add: unat_of_nat del: of_nat_Suc)
  have ub: "?b \<noteq> 59 \<Longrightarrow> unat (of_nat (Suc ?b) :: u8) = Suc ?b"
    using b by (simp add: unat_of_nat del: of_nat_Suc)
  show "unat (hundredths (stopwatch_timer_isr_bin s)) = Suc ?a mod 100"
    using a ua by (simp add: step del: of_nat_Suc)
  show "play_tick_sfx (stopwatch_timer_isr_bin s) = (play_tick_sfx s \<or> isr_sets_cue_bin s)"
    by (simp add: step cue)
  show "isr_sets_cue_bin s = (seconds (stopwatch_timer_isr_bin s) \<noteq> seconds s)"
  proof (cases "?a = 99")
    case False
    then show ?thesis by (simp add: step cue)
  next
    case a99: True
    show ?thesis
    proof (cases "?b = 59")
      case True
      then have "seconds s \<noteq> 0" by auto
      then show ?thesis using a99 True by (simp add: step cue)
    next
      case False
      then have "unat (of_nat (Suc ?b) :: u8) \<noteq> ?b" using ub by simp
      then have "(of_nat (Suc ?b) :: u8) \<noteq> seconds s" by auto
      then show ?thesis using a99 False by (simp add: step cue del: of_nat_Suc)
    qed
  qed
  show "total_bin (stopwatch_timer_isr_bin s) = Suc (total_bin s) mod (256 * 60 * 100)"
  proof (cases "?a = 99")
    case False
    then have "Suc (total_bin s) < 256 * 60 * 100"
      using a b m by (simp add: total_bin_def)
    then show ?thesis
      using False ua by (simp add: step total_bin_def del: of_nat_Suc)
  next
    case a99: True
    show ?thesis
    proof (cases "?b = 59")
      case False
      then have "Suc (total_bin s) < 256 * 60 * 100"
        using a b m by (simp add: total_bin_def)
      then show ?thesis
        using a99 False ub by (simp add: step total_bin_def del: of_nat_Suc)
    next
      case True
      have t: "Suc (total_bin s) = Suc ?m * 6000"
        using a99 True by (simp add: total_bin_def)
      show ?thesis
      proof (cases "?m = 255")
        case True
        then show ?thesis
          using a99 \<open>?b = 59\<close> by (simp add: step total_bin_def m1)
      next
        case False
        then have "Suc ?m < 256" using m by simp
        then have "Suc ?m mod 256 = Suc ?m" "Suc ?m * 6000 < 256 * 60 * 100" by simp_all
        then show ?thesis
          using a99 \<open>?b = 59\<close> by (simp add: step total_bin_def m1)
      qed
    qed
  qed
qed

lemma isr_bcd_tick:
  assumes run: "stopwatch s" and car: "carried_bcd s"
  shows "unat (hundredths (stopwatch_timer_isr_bcd s)) = Suc (unat (hundredths s)) mod 128"
    and "total_bcd (stopwatch_timer_isr_bcd s) = Suc (total_bcd s) mod (100 * 60 * 128)"
    and "isr_sets_cue_bcd s = (seconds (stopwatch_timer_isr_bcd s) \<noteq> seconds s)"
    and "play_tick_sfx (stopwatch_timer_isr_bcd s) = (play_tick_sfx s \<or> isr_sets_cue_bcd s)"
proof -
  let ?a = "unat (hundredths s)" and ?b = "bcd_value (seconds s)"
    and ?m = "bcd_value (minutes s)"
  note step = isr_bcd_carried [OF run car]
  note cue = isr_sets_cue_bcd_iff [OF run car]
  have a: "?a < 128" and b: "?b < 60" and vm: "valid_bcd (minutes s)"
    using car by (simp_all add: carried_bcd_def)
  have m: "?m < 100" using valid_bcd_to_bcd [OF vm] by simp
  have m1: "bcd_value (bcdIncrement (minutes s)) = Suc ?m mod 100"
    by (rule bcdIncrement_valid(2) [OF vm])
  have ua: "?a \<noteq> 127 \<Longrightarrow> unat (of_nat (Suc ?a) :: u8) = Suc ?a"
    using a by (simp add: unat_of_nat del: of_nat_Suc)
  have ub: "?b \<noteq> 59 \<Longrightarrow> bcd_value (to_bcd (Suc ?b)) = Suc ?b"
    using b by (intro to_bcd_valid [THEN conjunct2]) simp
  show "unat (hundredths (stopwatch_timer_isr_bcd s)) = Suc ?a mod 128"
    using a ua by (simp add: step del: of_nat_Suc)
  show "play_tick_sfx (stopwatch_timer_isr_bcd s) = (play_tick_sfx s \<or> isr_sets_cue_bcd s)"
    by (simp add: step cue)
  show "isr_sets_cue_bcd s = (seconds (stopwatch_timer_isr_bcd s) \<noteq> seconds s)"
  proof (cases "?a = 127")
    case False
    then show ?thesis by (simp add: step cue)
  next
    case a127: True
    show ?thesis
    proof (cases "?b = 59")
      case True
      then have "seconds s \<noteq> 0" using valid_bcd_0(2) by auto
      then show ?thesis using a127 True by (simp add: step cue)
    next
      case False
      then have "bcd_value (to_bcd (Suc ?b)) \<noteq> ?b" using ub by simp
      then have "to_bcd (Suc ?b) \<noteq> seconds s" by auto
      then show ?thesis using a127 False by (simp add: step cue)
    qed
  qed
  show "total_bcd (stopwatch_timer_isr_bcd s) = Suc (total_bcd s) mod (100 * 60 * 128)"
  proof (cases "?a = 127")
    case False
    then have "Suc (total_bcd s) < 100 * 60 * 128"
      using a b m by (simp add: total_bcd_def)
    then show ?thesis
      using False ua by (simp add: step total_bcd_def del: of_nat_Suc)
  next
    case a127: True
    show ?thesis
    proof (cases "?b = 59")
      case False
      then have "Suc (total_bcd s) < 100 * 60 * 128"
        using a b m by (simp add: total_bcd_def)
      then show ?thesis
        using a127 False ub by (simp add: step total_bcd_def)
    next
      case True
      show ?thesis
      proof (cases "?m = 99")
        case True
        then show ?thesis
          using a127 \<open>?b = 59\<close> by (simp add: step total_bcd_def m1 valid_bcd_0)
      next
        case False
        then have "Suc ?m < 100" using m by simp
        then have "Suc ?m mod 100 = Suc ?m" "Suc ?m * 7680 < 100 * 60 * 128" by simp_all
        then show ?thesis
          using a127 \<open>?b = 59\<close> by (simp add: step total_bcd_def m1 valid_bcd_0)
      qed
    qed
  qed
qed

text \<open>
  Claim C2. In a reachable running state, one invocation of the interrupt routine
  advances the sub-unit counter by exactly one (modulo its rate N); when it returns the
  counters have carried (sub-unit below N, seconds below 60) and the elapsed ticks that
  the three counters stand for have grown by exactly one (up to the wrap of the minutes
  byte); and the invocation sets the cue flag if and only if it changed the seconds
  field, never clearing a flag that was already set. Both revisions.
\<close>

theorem isr_single_tick:
  "(reachable_bin s \<and> stopwatch s \<longrightarrow>
      unat (hundredths (stopwatch_timer_isr_bin s)) = Suc (unat (hundredths s)) mod 100
    \<and> carried_bin (stopwatch_timer_isr_bin s)
    \<and> total_bin (stopwatch_timer_isr_bin s) = Suc (total_bin s) mod (256 * 60 * 100)
    \<and> (isr_sets_cue_bin s \<longleftrightarrow> seconds (stopwatch_timer_isr_bin s) \<noteq> seconds s)
    \<and> (play_tick_sfx (stopwatch_timer_isr_bin s) \<longleftrightarrow> play_tick_sfx s \<or> isr_sets_cue_bin s))
   \<and> (reachable_bcd s \<and> stopwatch s \<longrightarrow>
      unat (hundredths (stopwatch_timer_isr_bcd s)) = Suc (unat (hundredths s)) mod 128
    \<and> carried_bcd (stopwatch_timer_isr_bcd s)
    \<and> total_bcd (stopwatch_timer_isr_bcd s) = Suc (total_bcd s) mod (100 * 60 * 128)
    \<and> (isr_sets_cue_bcd s \<longleftrightarrow> seconds (stopwatch_timer_isr_bcd s) \<noteq> seconds s)
    \<and> (play_tick_sfx (stopwatch_timer_isr_bcd s) \<longleftrightarrow> play_tick_sfx s \<or> isr_sets_cue_bcd s))"
proof (intro conjI impI)
  assume h: "reachable_bin s \<and> stopwatch s"
  then have run: "stopwatch s" and car: "carried_bin s"
    by (simp_all add: reachable_bin_inv)
  show "unat (hundredths (stopwatch_timer_isr_bin s)) = Suc (unat (hundredths s)) mod 100"
    by (rule isr_bin_tick(1) [OF run car])
  show "carried_bin (stopwatch_timer_isr_bin s)"
    by (rule isr_bin_keeps_carried [OF car])
  show "total_bin (stopwatch_timer_isr_bin s) = Suc (total_bin s) mod (256 * 60 * 100)"
    by (rule isr_bin_tick(2) [OF run car])
  show "isr_sets_cue_bin s \<longleftrightarrow> seconds (stopwatch_timer_isr_bin s) \<noteq> seconds s"
    by (rule isr_bin_tick(3) [OF run car])
  show "play_tick_sfx (stopwatch_timer_isr_bin s) \<longleftrightarrow> play_tick_sfx s \<or> isr_sets_cue_bin s"
    by (rule isr_bin_tick(4) [OF run car])
next
  assume h: "reachable_bcd s \<and> stopwatch s"
  then have run: "stopwatch s" and car: "carried_bcd s"
    by (simp_all add: reachable_bcd_inv)
  show "unat (hundredths (stopwatch_timer_isr_bcd s)) = Suc (unat (hundredths s)) mod 128"
    by (rule isr_bcd_tick(1) [OF run car])
  show "carried_bcd (stopwatch_timer_isr_bcd s)"
    by (rule isr_bcd_keeps_carried [OF car])
  show "total_bcd (stopwatch_timer_isr_bcd s) = Suc (total_bcd s) mod (100 * 60 * 128)"
    by (rule isr_bcd_tick(2) [OF run car])
  show "isr_sets_cue_bcd s \<longleftrightarrow> seconds (stopwatch_timer_isr_bcd s) \<noteq> seconds s"
    by (rule isr_bcd_tick(3) [OF run car])
  show "play_tick_sfx (stopwatch_timer_isr_bcd s) \<longleftrightarrow> play_tick_sfx s \<or> isr_sets_cue_bcd s"
    by (rule isr_bcd_tick(4) [OF run car])
qed

lemma started_fields:
  "reachable_bin (start_stopwatch_bin (boot_bin cgb))"
  "minutes (start_stopwatch_bin (boot_bin cgb)) = 0"
  "seconds (start_stopwatch_bin (boot_bin cgb)) = 0"
  "hundredths (start_stopwatch_bin (boot_bin cgb)) = 0"
  "reachable_bcd (start_stopwatch_bcd (boot_bcd cgb))"
  "minutes (start_stopwatch_bcd (boot_bcd cgb)) = 0"
  "seconds (start_stopwatch_bcd (boot_bcd cgb)) = 0"
  "hundredths (start_stopwatch_bcd (boot_bcd cgb)) = 0"
  using start_stopwatch_fields(2) [of "boot_bin cgb"] start_stopwatch_fields(4) [of "boot_bcd cgb"]
    boot_fields(1,3) [of cgb]
  by (simp_all add: counters_def reachable_bin.intros reachable_bcd.intros)

theorem isr_single_tick_witness:
  "reachable_bin (start_stopwatch_bin (boot_bin False))
   \<and> stopwatch (start_stopwatch_bin (boot_bin False))
   \<and> unat (hundredths (stopwatch_timer_isr_bin (start_stopwatch_bin (boot_bin False)))) = 1
   \<and> total_bin (stopwatch_timer_isr_bin (start_stopwatch_bin (boot_bin False))) = 1
   \<and> reachable_bcd (start_stopwatch_bcd (boot_bcd True))
   \<and> stopwatch (start_stopwatch_bcd (boot_bcd True))
   \<and> unat (hundredths (stopwatch_timer_isr_bcd (start_stopwatch_bcd (boot_bcd True)))) = 1
   \<and> total_bcd (stopwatch_timer_isr_bcd (start_stopwatch_bcd (boot_bcd True))) = 1"
  using isr_single_tick [of "start_stopwatch_bin (boot_bin False)"]
    isr_single_tick [of "start_stopwatch_bcd (boot_bcd True)"]
  by (simp add: started_fields start_stopwatch_fields total_bin_def total_bcd_def valid_bcd_0)

text \<open>
  Claim C4. In the BCD revision, an invocation that increments the seconds (the sub-unit
  counter wraps from 127) while the seconds hold \<open>0x59\<close> leaves the seconds at \<open>0x00\<close>:
  the increment \<open>bcdIncrement\<close>, a binary add of one followed by the decimal adjust,
  yields \<open>0x60\<close> (not \<open>0x5A\<close>), the rollover test against \<open>0x60\<close> succeeds, the seconds
  are zeroed and the minutes become \<open>bcdIncrement\<close> of the minutes, which for packed
  BCD minutes is one more in decimal.
\<close>

theorem bcd_seconds_rollover:
  assumes "stopwatch s" and "hundredths s = 0x7F" and "seconds s = 0x59"
  shows "seconds (stopwatch_timer_isr_bcd s) = 0x00
       \<and> minutes (stopwatch_timer_isr_bcd s) = bcdIncrement (minutes s)
       \<and> bcdIncrement (seconds s) = 0x60
       \<and> bcdIncrement (seconds s) = daa (add_imm (seconds s) 0x01)
       \<and> fst (add_imm (seconds s) 0x01) = 0x5A
       \<and> (0x60 \<le> bcdIncrement (seconds s))
       \<and> (valid_bcd (minutes s) \<longrightarrow>
            valid_bcd (minutes (stopwatch_timer_isr_bcd s))
          \<and> bcd_value (minutes (stopwatch_timer_isr_bcd s)) = Suc (bcd_value (minutes s)) mod 100)"
proof -
  have i: "bcdIncrement (0x59 :: u8) = 0x60"
    by (simp add: bcdIncrement_def daa_def add_imm_def)
  have a: "fst (add_imm (0x59 :: u8) 0x01) = 0x5A"
    by (simp add: add_imm_def)
  have m: "minutes (stopwatch_timer_isr_bcd s) = bcdIncrement (minutes s)"
    and z: "seconds (stopwatch_timer_isr_bcd s) = 0x00"
    using assms by (simp_all add: stopwatch_timer_isr_bcd_def Let_def i)
  have d: "bcdIncrement (seconds s) = daa (add_imm (seconds s) 0x01)"
    by (simp add: bcdIncrement_def)
  show ?thesis
    using assms(3) bcdIncrement_valid [of "minutes s"] d
    by (simp add: m z i a)
qed

lemma run_bcd_rep:
  "rep_bcd t ((stopwatch_timer_isr_bcd ^^ t) (start_stopwatch_bcd (boot_bcd cgb)))"
  using rep_bcd_funpow [OF rep_bcd_zero, of "start_stopwatch_bcd (boot_bcd cgb)" t]
  by (simp add: start_stopwatch_fields boot_fields)

lemma run_bin_rep:
  "rep_bin t ((stopwatch_timer_isr_bin ^^ t) (start_stopwatch_bin (boot_bin cgb)))"
  using rep_bin_funpow [OF rep_bin_zero, of "start_stopwatch_bin (boot_bin cgb)" t]
  by (simp add: start_stopwatch_fields boot_fields)

theorem bcd_seconds_rollover_witness:
  "stopwatch ((stopwatch_timer_isr_bcd ^^ 76799) (start_stopwatch_bcd (boot_bcd True)))
   \<and> hundredths ((stopwatch_timer_isr_bcd ^^ 76799) (start_stopwatch_bcd (boot_bcd True))) = 0x7F
   \<and> seconds ((stopwatch_timer_isr_bcd ^^ 76799) (start_stopwatch_bcd (boot_bcd True))) = 0x59
   \<and> minutes ((stopwatch_timer_isr_bcd ^^ 76799) (start_stopwatch_bcd (boot_bcd True))) = 0x09
   \<and> seconds (stopwatch_timer_isr_bcd
        ((stopwatch_timer_isr_bcd ^^ 76799) (start_stopwatch_bcd (boot_bcd True)))) = 0x00
   \<and> minutes (stopwatch_timer_isr_bcd
        ((stopwatch_timer_isr_bcd ^^ 76799) (start_stopwatch_bcd (boot_bcd True)))) = 0x10
   \<and> bcd_value (minutes (stopwatch_timer_isr_bcd
        ((stopwatch_timer_isr_bcd ^^ 76799) (start_stopwatch_bcd (boot_bcd True))))) = 10"
proof -
  let ?s = "(stopwatch_timer_isr_bcd ^^ 76799) (start_stopwatch_bcd (boot_bcd True))"
  have r: "stopwatch ?s" "hundredths ?s = 0x7F" "seconds ?s = 0x59" "minutes ?s = 0x09"
    using run_bcd_rep [of 76799 True] by (simp_all add: rep_bcd_def to_bcd_def)
  have v: "valid_bcd (0x09 :: u8)" "bcd_value (0x09 :: u8) = 9"
    by (simp_all add: valid_bcd_unat bcd_value_unat)
  have i: "bcdIncrement (0x09 :: u8) = 0x10"
    by (simp add: bcdIncrement_def daa_def add_imm_def)
  have w: "bcd_value (0x10 :: u8) = 10"
    by (simp add: bcd_value_unat)
  show ?thesis
    using r bcd_seconds_rollover [OF r(1,2,3)] by (simp add: v i w)
qed

section \<open>The minutes field\<close>

lemma reachable_bin_funpow:
  "reachable_bin s \<Longrightarrow> reachable_bin ((stopwatch_timer_isr_bin ^^ t) s)"
  by (induction t) (simp_all add: reachable_bin.intros)

lemma reachable_bcd_funpow:
  "reachable_bcd s \<Longrightarrow> reachable_bcd ((stopwatch_timer_isr_bcd ^^ t) s)"
  by (induction t) (simp_all add: reachable_bcd.intros)

text \<open>
  Claim C3, as stated, fails: after one hour of continuous running the minutes field
  holds 60 in the binary revision and \<open>0x60\<close> in the BCD revision. The states are
  reached from boot by the start routine and 100 * 3600 (128 * 3600) interrupts.
\<close>

theorem minutes_bound_counterexample:
  "reachable_bin ((stopwatch_timer_isr_bin ^^ 360000) (start_stopwatch_bin (boot_bin False)))
   \<and> \<not> unat (minutes ((stopwatch_timer_isr_bin ^^ 360000)
                (start_stopwatch_bin (boot_bin False)))) \<le> 59
   \<and> minutes ((stopwatch_timer_isr_bin ^^ 360000) (start_stopwatch_bin (boot_bin False))) = 60
   \<and> reachable_bcd ((stopwatch_timer_isr_bcd ^^ 460800) (start_stopwatch_bcd (boot_bcd False)))
   \<and> \<not> bcd_value (minutes ((stopwatch_timer_isr_bcd ^^ 460800)
                (start_stopwatch_bcd (boot_bcd False)))) \<le> 59
   \<and> minutes ((stopwatch_timer_isr_bcd ^^ 460800) (start_stopwatch_bcd (boot_bcd False))) = 0x60"
proof -
  have a: "minutes ((stopwatch_timer_isr_bin ^^ 360000) (start_stopwatch_bin (boot_bin False))) = 60"
    using run_bin_rep [of 360000 False] by (simp add: rep_bin_def)
  have b: "minutes ((stopwatch_timer_isr_bcd ^^ 460800) (start_stopwatch_bcd (boot_bcd False))) = 0x60"
    using run_bcd_rep [of 460800 False] by (simp add: rep_bcd_def to_bcd_def)
  have c: "bcd_value (0x60 :: u8) = 60"
    by (simp add: bcd_value_unat)
  show ?thesis
    by (simp add: a b c reachable_bin_funpow reachable_bcd_funpow started_fields)
qed

text \<open>
  Claim C3, amended. In every reachable state the sub-unit counter is below its rate and
  the seconds are below 60, but the minutes are not kept below 60: the invocation that
  rolls the seconds over adds one to the minutes with no test. The binary minutes wrap
  to 0 only from 255, when the byte overflows; the packed minutes are always valid BCD
  (at most 99) and wrap to \<open>0x00\<close> only from \<open>0x99\<close>, through the decimal adjust. That
  invocation writes nothing but the three counters and the cue flag: there is no
  overflow signal.
\<close>

theorem minutes_wrap_amended:
  "(reachable_bin s \<longrightarrow> carried_bin s)
   \<and> (reachable_bcd s \<longrightarrow> carried_bcd s \<and> bcd_value (minutes s) \<le> 99)
   \<and> (stopwatch s \<and> hundredths s = 99 \<and> seconds s = 59 \<longrightarrow>
        stopwatch_timer_isr_bin s
          = s\<lparr>hundredths := 0, seconds := 0, play_tick_sfx := True, minutes := minutes s + 1\<rparr>
      \<and> unat (minutes (stopwatch_timer_isr_bin s)) = Suc (unat (minutes s)) mod 256)
   \<and> (stopwatch s \<and> hundredths s = 0x7F \<and> seconds s = 0x59 \<and> valid_bcd (minutes s) \<longrightarrow>
        stopwatch_timer_isr_bcd s
          = s\<lparr>hundredths := 0, seconds := 0, play_tick_sfx := True,
               minutes := bcdIncrement (minutes s)\<rparr>
      \<and> bcd_value (minutes (stopwatch_timer_isr_bcd s)) = Suc (bcd_value (minutes s)) mod 100)"
proof (intro conjI impI)
  assume "reachable_bin s"
  then show "carried_bin s" by (rule reachable_bin_inv)
next
  assume r: "reachable_bcd s"
  then show "carried_bcd s" by (rule reachable_bcd_inv)
  from reachable_bcd_inv [OF r] have "valid_bcd (minutes s)" by (simp add: carried_bcd_def)
  from valid_bcd_to_bcd [OF this] show "bcd_value (minutes s) \<le> 99" by simp
next
  assume h: "stopwatch s \<and> hundredths s = 99 \<and> seconds s = 59"
  then have e: "stopwatch_timer_isr_bin s
      = s\<lparr>hundredths := 0, seconds := 0, play_tick_sfx := True, minutes := minutes s + 1\<rparr>"
    using isr_bin_step [of s 99 59] by simp
  then show "stopwatch_timer_isr_bin s
      = s\<lparr>hundredths := 0, seconds := 0, play_tick_sfx := True, minutes := minutes s + 1\<rparr>" .
  show "unat (minutes (stopwatch_timer_isr_bin s)) = Suc (unat (minutes s)) mod 256"
    by (simp add: e unat_word_ariths)
next
  assume h: "stopwatch s \<and> hundredths s = 0x7F \<and> seconds s = 0x59 \<and> valid_bcd (minutes s)"
  have "to_bcd 59 = 0x59" by (simp add: to_bcd_def)
  with h have e: "stopwatch_timer_isr_bcd s
      = s\<lparr>hundredths := 0, seconds := 0, play_tick_sfx := True,
           minutes := bcdIncrement (minutes s)\<rparr>"
    using isr_bcd_step [of s 127 59] by simp
  then show "stopwatch_timer_isr_bcd s
      = s\<lparr>hundredths := 0, seconds := 0, play_tick_sfx := True,
           minutes := bcdIncrement (minutes s)\<rparr>" .
  show "bcd_value (minutes (stopwatch_timer_isr_bcd s)) = Suc (bcd_value (minutes s)) mod 100"
    using h by (simp add: e bcdIncrement_valid)
qed

theorem minutes_wrap_amended_witness:
  "reachable_bin ((stopwatch_timer_isr_bin ^^ 359999) (start_stopwatch_bin (boot_bin False)))
   \<and> stopwatch ((stopwatch_timer_isr_bin ^^ 359999) (start_stopwatch_bin (boot_bin False)))
   \<and> hundredths ((stopwatch_timer_isr_bin ^^ 359999) (start_stopwatch_bin (boot_bin False))) = 99
   \<and> seconds ((stopwatch_timer_isr_bin ^^ 359999) (start_stopwatch_bin (boot_bin False))) = 59
   \<and> minutes ((stopwatch_timer_isr_bin ^^ 359999) (start_stopwatch_bin (boot_bin False))) = 59
   \<and> unat (minutes (stopwatch_timer_isr_bin
        ((stopwatch_timer_isr_bin ^^ 359999) (start_stopwatch_bin (boot_bin False))))) = 60
   \<and> reachable_bcd ((stopwatch_timer_isr_bcd ^^ 460799) (start_stopwatch_bcd (boot_bcd True)))
   \<and> stopwatch ((stopwatch_timer_isr_bcd ^^ 460799) (start_stopwatch_bcd (boot_bcd True)))
   \<and> hundredths ((stopwatch_timer_isr_bcd ^^ 460799) (start_stopwatch_bcd (boot_bcd True))) = 0x7F
   \<and> seconds ((stopwatch_timer_isr_bcd ^^ 460799) (start_stopwatch_bcd (boot_bcd True))) = 0x59
   \<and> minutes ((stopwatch_timer_isr_bcd ^^ 460799) (start_stopwatch_bcd (boot_bcd True))) = 0x59
   \<and> valid_bcd 0x59
   \<and> bcd_value (minutes (stopwatch_timer_isr_bcd
        ((stopwatch_timer_isr_bcd ^^ 460799) (start_stopwatch_bcd (boot_bcd True))))) = 60"
proof -
  let ?a = "(stopwatch_timer_isr_bin ^^ 359999) (start_stopwatch_bin (boot_bin False))"
  let ?b = "(stopwatch_timer_isr_bcd ^^ 460799) (start_stopwatch_bcd (boot_bcd True))"
  have ra: "reachable_bin ?a" by (simp add: reachable_bin_funpow started_fields)
  have rb: "reachable_bcd ?b" by (simp add: reachable_bcd_funpow started_fields)
  have fa: "stopwatch ?a" "hundredths ?a = 99" "seconds ?a = 59" "minutes ?a = 59"
    using run_bin_rep [of 359999 False] by (simp_all add: rep_bin_def)
  have fb: "stopwatch ?b" "hundredths ?b = 0x7F" "seconds ?b = 0x59" "minutes ?b = 0x59"
    using run_bcd_rep [of 460799 True] by (simp_all add: rep_bcd_def to_bcd_def)
  have v: "valid_bcd (0x59 :: u8)" "bcd_value (0x59 :: u8) = 59"
    by (simp_all add: valid_bcd_unat bcd_value_unat)
  have vb: "valid_bcd (minutes ?b)" by (simp add: fb v)
  have ca: "unat (minutes (stopwatch_timer_isr_bin ?a)) = Suc (unat (minutes ?a)) mod 256"
    using minutes_wrap_amended [of ?a] fa(1,2,3) by blast
  have cb: "bcd_value (minutes (stopwatch_timer_isr_bcd ?b)) = Suc (bcd_value (minutes ?b)) mod 100"
    using minutes_wrap_amended [of ?b] fb(1,2,3) vb by blast
  show ?thesis
    by (simp add: ra rb fa fb v ca cb)
qed

section \<open>Console output and the pause\<close>

lemma print_at_apply:
  "print_at x y str scr p =
     (if snd p = y \<and> x \<le> fst p \<and> fst p < x + length str
      then of_char (str ! (fst p - x)) - 32 else scr p)"
proof (induction str arbitrary: x scr p)
  case Nil
  show ?case by auto
next
  case (Cons c cs)
  show ?case
  proof (cases "p = (x, y)")
    case True
    then show ?thesis by (simp add: Cons.IH)
  next
    case False
    then have "snd p = y \<and> x \<le> fst p \<longleftrightarrow> snd p = y \<and> Suc x \<le> fst p"
      by (cases p) auto
    moreover have "Suc x \<le> fst p \<Longrightarrow> (c # cs) ! (fst p - x) = cs ! (fst p - Suc x)"
      by (simp add: Suc_diff_le)
    ultimately show ?thesis using False by (auto simp: Cons.IH)
  qed
qed

lemma print_at_idem: "print_at x y str (print_at x y str scr) = print_at x y str scr"
  by (rule ext) (simp add: print_at_apply)

lemma print_at_twice:
  "print_at x y str (print_at x' y' str' (print_at x y str (print_at x' y' str' scr)))
     = print_at x y str (print_at x' y' str' scr)"
  by (rule ext) (simp add: print_at_apply)

lemma pause_stopwatch_alt:
  "pause_stopwatch s =
     s\<lparr>TAC_REG := TACF_STOP, stopwatch := False, NR50_REG := 0x77,
        NR10_REG := 0x17, NR11_REG := 0x42, NR12_REG := 0xD5, NR13_REG := 0x37, NR14_REG := 0x87,
        bkg := print_at 5 16 ''B:   Reset'' (print_at 10 15 ''Start'' (bkg s))\<rparr>"
  unfolding pause_stopwatch_def printf_xy_def sfx_1_def VOLUME_MAX_def Let_def
  by simp

lemma pause_stopwatch_idem: "pause_stopwatch (pause_stopwatch s) = pause_stopwatch s"
  unfolding pause_stopwatch_alt by (simp add: print_at_twice)

section \<open>The pause routine\<close>

lemma pause_stopwatch_fields:
  "TAC_REG (pause_stopwatch s) = TACF_STOP"
  "TMA_REG (pause_stopwatch s) = TMA_REG s"
  "TIMA_REG (pause_stopwatch s) = TIMA_REG s"
  "prev_joypad (pause_stopwatch s) = prev_joypad s"
  "minutes (pause_stopwatch s) = minutes s"
  "seconds (pause_stopwatch s) = seconds s"
  "hundredths (pause_stopwatch s) = hundredths s"
  by (simp_all add: pause_stopwatch_alt)

lemma handle_inputs_pause:
  assumes "stopwatch s" "press_edge J_A j1 (prev_joypad s)" "\<not> press_edge J_B j2 (prev_joypad s)"
  shows "handle_inputs_bin j0 j1 j2 s = (pause_stopwatch s)\<lparr>prev_joypad := j0\<rparr>"
    and "handle_inputs_bcd j0 j1 j2 s = (pause_stopwatch s)\<lparr>prev_joypad := j0\<rparr>"
  using assms
  by (auto simp: handle_inputs_bin_def handle_inputs_bcd_def press_edge_def Let_def
      pause_stopwatch_fields pause_reset_fields)

text \<open>
  Claim C6. The pause routine writes the stop value (0, bit 2 clear) to the timer control
  register and clears the run flag, and leaves the minutes, the seconds, the sub-unit
  counter and the timer's counter and modulo registers as they were. It is what
  \<open>handle_inputs\<close> runs on a press-edge of the A button while running.
\<close>

theorem pause_stopwatch_effect:
  "TAC_REG (pause_stopwatch s) = TACF_STOP
   \<and> TAC_REG (pause_stopwatch s) = TAC_REG_STOP
   \<and> timer_stopped (pause_stopwatch s)
   \<and> \<not> stopwatch (pause_stopwatch s)
   \<and> minutes (pause_stopwatch s) = minutes s
   \<and> seconds (pause_stopwatch s) = seconds s
   \<and> hundredths (pause_stopwatch s) = hundredths s
   \<and> TIMA_REG (pause_stopwatch s) = TIMA_REG s
   \<and> TMA_REG (pause_stopwatch s) = TMA_REG s
   \<and> (stopwatch s \<and> press_edge J_A j1 (prev_joypad s) \<and> \<not> press_edge J_B j2 (prev_joypad s) \<longrightarrow>
        handle_inputs_bin j0 j1 j2 s = (pause_stopwatch s)\<lparr>prev_joypad := j0\<rparr>
      \<and> handle_inputs_bcd j0 j1 j2 s = (pause_stopwatch s)\<lparr>prev_joypad := j0\<rparr>)"
  using handle_inputs_pause [of s j1 j2 j0]
  by (simp add: pause_stopwatch_fields pause_reset_fields timer_stopped_def TACF_STOP_def
      TAC_REG_STOP_def)

lemma started_more_fields:
  "stopwatch (start_stopwatch_bin (boot_bin cgb))"
  "prev_joypad (start_stopwatch_bin (boot_bin cgb)) = 0"
  "stopwatch (start_stopwatch_bcd (boot_bcd cgb))"
  "prev_joypad (start_stopwatch_bcd (boot_bcd cgb)) = 0"
  by (simp_all add: routine_defs boot_defs)

theorem pause_stopwatch_effect_witness:
  "stopwatch (start_stopwatch_bin (boot_bin False))
   \<and> press_edge J_A 0x10 (prev_joypad (start_stopwatch_bin (boot_bin False)))
   \<and> \<not> press_edge J_B 0x10 (prev_joypad (start_stopwatch_bin (boot_bin False)))
   \<and> handle_inputs_bin 0x10 0x10 0x10 (start_stopwatch_bin (boot_bin False))
       = (pause_stopwatch (start_stopwatch_bin (boot_bin False)))\<lparr>prev_joypad := 0x10\<rparr>
   \<and> \<not> stopwatch (handle_inputs_bin 0x10 0x10 0x10 (start_stopwatch_bin (boot_bin False)))
   \<and> TAC_REG (handle_inputs_bin 0x10 0x10 0x10 (start_stopwatch_bin (boot_bin False))) = 0"
proof -
  let ?s = "start_stopwatch_bin (boot_bin False)"
  have h: "stopwatch ?s" "press_edge J_A 0x10 (prev_joypad ?s)"
    "\<not> press_edge J_B 0x10 (prev_joypad ?s)"
    by (simp_all add: started_more_fields press_edge_def J_A_def J_B_def)
  from pause_stopwatch_effect [of ?s "0x10" "0x10" "0x10"] h
  have e: "handle_inputs_bin 0x10 0x10 0x10 ?s = (pause_stopwatch ?s)\<lparr>prev_joypad := 0x10\<rparr>"
    by blast
  show ?thesis
    using h by (simp add: e pause_stopwatch_fields pause_reset_fields TACF_STOP_def)
qed

section \<open>Reset and its guard\<close>

lemma counters_prev_joypad: "counters (s\<lparr>prev_joypad := j\<rparr>) = counters s"
  by (simp add: counters_def)

lemma handle_inputs_reset:
  assumes "\<not> stopwatch s" "press_edge J_B j2 (prev_joypad s)" "\<not> press_edge J_A j1 (prev_joypad s)"
  shows "handle_inputs_bin j0 j1 j2 s = (reset_stopwatch s)\<lparr>prev_joypad := j0\<rparr>"
    and "handle_inputs_bcd j0 j1 j2 s = (reset_stopwatch s)\<lparr>prev_joypad := j0\<rparr>"
  using assms
  by (auto simp: handle_inputs_bin_def handle_inputs_bcd_def press_edge_def Let_def)

lemma handle_inputs_running_cancel:
  assumes "stopwatch s" "\<not> press_edge J_A j1 (prev_joypad s)"
  shows "handle_inputs_bin j0 j1 j2 s = s\<lparr>prev_joypad := j0\<rparr>"
    and "handle_inputs_bcd j0 j1 j2 s = s\<lparr>prev_joypad := j0\<rparr>"
  using assms
  by (auto simp: handle_inputs_bin_def handle_inputs_bcd_def press_edge_def Let_def)

lemma isr_once_fields:
  "stopwatch (stopwatch_timer_isr_bin (start_stopwatch_bin (boot_bin cgb)))"
  "prev_joypad (stopwatch_timer_isr_bin (start_stopwatch_bin (boot_bin cgb))) = 0"
  "counters (stopwatch_timer_isr_bin (start_stopwatch_bin (boot_bin cgb))) = (0, 0, 1)"
  "reachable_bin (stopwatch_timer_isr_bin (start_stopwatch_bin (boot_bin cgb)))"
proof -
  let ?s = "start_stopwatch_bin (boot_bin cgb)"
  have e: "stopwatch_timer_isr_bin ?s = ?s\<lparr>hundredths := 1\<rparr>"
    using isr_bin_step [of ?s 0 0] by (simp add: started_fields started_more_fields)
  show "stopwatch (stopwatch_timer_isr_bin ?s)"
    "prev_joypad (stopwatch_timer_isr_bin ?s) = 0"
    "counters (stopwatch_timer_isr_bin ?s) = (0, 0, 1)"
    by (simp_all add: e started_fields started_more_fields counters_def)
  show "reachable_bin (stopwatch_timer_isr_bin ?s)"
    by (intro reachable_bin.intros)
qed

text \<open>
  Claim C5, as stated, fails when the press-edges of both buttons arrive in the same
  poll of a running stopwatch: \<open>handle_inputs\<close> pauses on the A edge first, and its B
  test then finds the run flag clear and resets. The state is the one after boot, start
  and one interrupt; both buttons read as pressed (\<open>0x30\<close>).
\<close>

theorem reset_while_running_counterexample:
  "reachable_bin (stopwatch_timer_isr_bin (start_stopwatch_bin (boot_bin False)))
   \<and> stopwatch (stopwatch_timer_isr_bin (start_stopwatch_bin (boot_bin False)))
   \<and> press_edge J_B 0x30 (prev_joypad (stopwatch_timer_isr_bin (start_stopwatch_bin (boot_bin False))))
   \<and> counters (stopwatch_timer_isr_bin (start_stopwatch_bin (boot_bin False))) = (0, 0, 1)
   \<and> counters (handle_inputs_bin 0x30 0x30 0x30
         (stopwatch_timer_isr_bin (start_stopwatch_bin (boot_bin False)))) = (0, 0, 0)
   \<and> \<not> stopwatch (handle_inputs_bin 0x30 0x30 0x30
         (stopwatch_timer_isr_bin (start_stopwatch_bin (boot_bin False))))"
proof -
  let ?s = "stopwatch_timer_isr_bin (start_stopwatch_bin (boot_bin False))"
  have e: "handle_inputs_bin 0x30 0x30 0x30 ?s
      = (reset_stopwatch (pause_stopwatch ?s))\<lparr>prev_joypad := 0x30\<rparr>"
    by (simp add: handle_inputs_bin_def Let_def isr_once_fields J_A_def J_B_def
        pause_stopwatch_fields pause_reset_fields)
  show ?thesis
    by (simp add: e isr_once_fields press_edge_def J_B_def counters_prev_joypad
        pause_reset_fields)
qed

text \<open>
  Claim C5, amended. The reset routine sets the three counters to zero whatever they
  held, and \<open>handle_inputs\<close> runs it on a B press-edge while idle (no A press-edge in
  the same poll). While running, a B press-edge in a poll with no A press-edge causes
  no transition: nothing changes but the remembered button mask; counters, run flag,
  timer registers, sound registers and screen stay as they were.
\<close>

theorem reset_guard_amended:
  "counters (reset_stopwatch s) = (0, 0, 0)
   \<and> (\<not> stopwatch s \<and> press_edge J_B j2 (prev_joypad s) \<and> \<not> press_edge J_A j1 (prev_joypad s) \<longrightarrow>
        handle_inputs_bin j0 j1 j2 s = (reset_stopwatch s)\<lparr>prev_joypad := j0\<rparr>
      \<and> handle_inputs_bcd j0 j1 j2 s = (reset_stopwatch s)\<lparr>prev_joypad := j0\<rparr>
      \<and> counters (handle_inputs_bin j0 j1 j2 s) = (0, 0, 0)
      \<and> counters (handle_inputs_bcd j0 j1 j2 s) = (0, 0, 0))
   \<and> (stopwatch s \<and> press_edge J_B j2 (prev_joypad s) \<and> \<not> press_edge J_A j1 (prev_joypad s) \<longrightarrow>
        handle_inputs_bin j0 j1 j2 s = s\<lparr>prev_joypad := j0\<rparr>
      \<and> handle_inputs_bcd j0 j1 j2 s = s\<lparr>prev_joypad := j0\<rparr>)"
proof (intro conjI impI)
  show "counters (reset_stopwatch s) = (0, 0, 0)" by (rule pause_reset_fields)
next
  assume h: "\<not> stopwatch s \<and> press_edge J_B j2 (prev_joypad s) \<and> \<not> press_edge J_A j1 (prev_joypad s)"
  then have a: "\<not> stopwatch s" and b: "press_edge J_B j2 (prev_joypad s)"
    and c: "\<not> press_edge J_A j1 (prev_joypad s)" by simp_all
  show e: "handle_inputs_bin j0 j1 j2 s = (reset_stopwatch s)\<lparr>prev_joypad := j0\<rparr>"
    by (rule handle_inputs_reset(1) [OF a b c])
  show f: "handle_inputs_bcd j0 j1 j2 s = (reset_stopwatch s)\<lparr>prev_joypad := j0\<rparr>"
    by (rule handle_inputs_reset(2) [OF a b c])
  show "counters (handle_inputs_bin j0 j1 j2 s) = (0, 0, 0)"
    by (simp add: e counters_prev_joypad pause_reset_fields)
  show "counters (handle_inputs_bcd j0 j1 j2 s) = (0, 0, 0)"
    by (simp add: f counters_prev_joypad pause_reset_fields)
next
  assume h: "stopwatch s \<and> press_edge J_B j2 (prev_joypad s) \<and> \<not> press_edge J_A j1 (prev_joypad s)"
  then have a: "stopwatch s" and c: "\<not> press_edge J_A j1 (prev_joypad s)" by simp_all
  show "handle_inputs_bin j0 j1 j2 s = s\<lparr>prev_joypad := j0\<rparr>"
    by (rule handle_inputs_running_cancel(1) [OF a c])
  show "handle_inputs_bcd j0 j1 j2 s = s\<lparr>prev_joypad := j0\<rparr>"
    by (rule handle_inputs_running_cancel(2) [OF a c])
qed

theorem reset_guard_amended_witness:
  "stopwatch (stopwatch_timer_isr_bin (start_stopwatch_bin (boot_bin False)))
   \<and> press_edge J_B 0x20 (prev_joypad (stopwatch_timer_isr_bin (start_stopwatch_bin (boot_bin False))))
   \<and> \<not> press_edge J_A 0x20 (prev_joypad (stopwatch_timer_isr_bin (start_stopwatch_bin (boot_bin False))))
   \<and> handle_inputs_bin 0x20 0x20 0x20 (stopwatch_timer_isr_bin (start_stopwatch_bin (boot_bin False)))
       = (stopwatch_timer_isr_bin (start_stopwatch_bin (boot_bin False)))\<lparr>prev_joypad := 0x20\<rparr>
   \<and> \<not> stopwatch (pause_stopwatch (stopwatch_timer_isr_bin (start_stopwatch_bin (boot_bin False))))
   \<and> press_edge J_B 0x20
        (prev_joypad (pause_stopwatch (stopwatch_timer_isr_bin (start_stopwatch_bin (boot_bin False)))))
   \<and> \<not> press_edge J_A 0x20
        (prev_joypad (pause_stopwatch (stopwatch_timer_isr_bin (start_stopwatch_bin (boot_bin False)))))
   \<and> counters (pause_stopwatch (stopwatch_timer_isr_bin (start_stopwatch_bin (boot_bin False))))
       = (0, 0, 1)
   \<and> counters (handle_inputs_bin 0x20 0x20 0x20
        (pause_stopwatch (stopwatch_timer_isr_bin (start_stopwatch_bin (boot_bin False)))))
       = (0, 0, 0)"
proof -
  let ?s = "stopwatch_timer_isr_bin (start_stopwatch_bin (boot_bin False))"
  have r: "stopwatch ?s" "press_edge J_B 0x20 (prev_joypad ?s)"
    "\<not> press_edge J_A 0x20 (prev_joypad ?s)"
    by (simp_all add: isr_once_fields press_edge_def J_A_def J_B_def)
  have i: "\<not> stopwatch (pause_stopwatch ?s)" "press_edge J_B 0x20 (prev_joypad (pause_stopwatch ?s))"
    "\<not> press_edge J_A 0x20 (prev_joypad (pause_stopwatch ?s))"
    "counters (pause_stopwatch ?s) = (0, 0, 1)"
    by (simp_all add: isr_once_fields press_edge_def J_A_def J_B_def pause_stopwatch_fields
        pause_reset_fields)
  have a: "handle_inputs_bin 0x20 0x20 0x20 ?s = ?s\<lparr>prev_joypad := 0x20\<rparr>"
    using reset_guard_amended [of ?s "0x20" "0x20" "0x20"] r by blast
  have b: "counters (handle_inputs_bin 0x20 0x20 0x20 (pause_stopwatch ?s)) = (0, 0, 0)"
    using reset_guard_amended [of "pause_stopwatch ?s" "0x20" "0x20" "0x20"] i(1,2,3) by blast
  show ?thesis
    using r i a b by simp
qed

section \<open>Pause is idempotent; frames do not move the counters\<close>

lemma handle_inputs_b_released:
  assumes "j2 AND J_B = 0"
  shows "counters (handle_inputs_bin j0 j1 j2 s) = counters s"
    and "counters (handle_inputs_bcd j0 j1 j2 s) = counters s"
  using assms pause_reset_fields(1) [of s] start_stopwatch_fields(2,4) [of s]
  by (simp_all add: handle_inputs_bin_def handle_inputs_bcd_def Let_def counters_prev_joypad)

lemma frame_b_released:
  assumes "b_released j"
  shows "counters (main_loop_frame_bin j s) = counters s"
    and "counters (main_loop_frame_bcd j s) = counters s"
  using assms
  by (auto simp: main_loop_frame_bin_def main_loop_frame_bcd_def b_released_def
      handle_stopwatch_fields handle_inputs_b_released split: prod.splits)

lemma frames_b_released:
  "\<forall>j\<in>set js. b_released j \<Longrightarrow> counters (fold main_loop_frame_bin js s) = counters s"
  "\<forall>j\<in>set js. b_released j \<Longrightarrow> counters (fold main_loop_frame_bcd js s) = counters s"
  by (induction js arbitrary: s) (simp_all add: frame_b_released)

lemma handle_inputs_released:
  assumes "j1 AND J_A = 0" "j2 AND J_B = 0"
  shows "handle_inputs_bin j0 j1 j2 s = s\<lparr>prev_joypad := j0\<rparr>"
    and "handle_inputs_bcd j0 j1 j2 s = s\<lparr>prev_joypad := j0\<rparr>"
  using assms by (simp_all add: handle_inputs_bin_def handle_inputs_bcd_def Let_def)

lemma frame_released_idle:
  assumes "a_released j" "b_released j" "\<not> stopwatch s"
  shows "main_loop_frame_bin j s = s\<lparr>prev_joypad := fst j\<rparr>"
    and "main_loop_frame_bcd j s = s\<lparr>prev_joypad := fst j\<rparr>"
  using assms
  by (auto simp: main_loop_frame_bin_def main_loop_frame_bcd_def a_released_def b_released_def
      handle_inputs_released handle_stopwatch_bin_def handle_stopwatch_bcd_def split: prod.splits)

lemma frames_released_idle:
  assumes "\<forall>j\<in>set js. a_released j \<and> b_released j" "\<not> stopwatch s"
  shows "\<not> stopwatch (fold main_loop_frame_bin js s)
       \<and> TAC_REG (fold main_loop_frame_bin js s) = TAC_REG s
       \<and> TIMA_REG (fold main_loop_frame_bin js s) = TIMA_REG s"
    and "\<not> stopwatch (fold main_loop_frame_bcd js s)
       \<and> TAC_REG (fold main_loop_frame_bcd js s) = TAC_REG s
       \<and> TIMA_REG (fold main_loop_frame_bcd js s) = TIMA_REG s"
  using assms
  by (induction js arbitrary: s) (simp_all add: frame_released_idle)

lemma paused_once_fields:
  "\<not> stopwatch (pause_stopwatch (stopwatch_timer_isr_bin (start_stopwatch_bin (boot_bin cgb))))"
  "timer_stopped (pause_stopwatch (stopwatch_timer_isr_bin (start_stopwatch_bin (boot_bin cgb))))"
  "prev_joypad (pause_stopwatch (stopwatch_timer_isr_bin (start_stopwatch_bin (boot_bin cgb)))) = 0"
  "counters (pause_stopwatch (stopwatch_timer_isr_bin (start_stopwatch_bin (boot_bin cgb)))) = (0, 0, 1)"
  "reachable_bin (pause_stopwatch (stopwatch_timer_isr_bin (start_stopwatch_bin (boot_bin cgb))))"
  by (simp_all add: pause_reset_fields pause_stopwatch_fields isr_once_fields timer_stopped_def
      TACF_STOP_def reachable_bin.intros)

text \<open>
  Claim C7, as stated, fails for a frame in which the B button is pressed: the timer
  stays stopped, yet \<open>handle_inputs\<close> resets the counters. The state is the one after
  boot, start, one interrupt and pause; the frame reads \<open>0x20\<close> (B down).
\<close>

theorem paused_frame_counterexample:
  "reachable_bin (pause_stopwatch (stopwatch_timer_isr_bin (start_stopwatch_bin (boot_bin False))))
   \<and> timer_stopped (pause_stopwatch (stopwatch_timer_isr_bin (start_stopwatch_bin (boot_bin False))))
   \<and> counters (pause_stopwatch (stopwatch_timer_isr_bin (start_stopwatch_bin (boot_bin False))))
        = (0, 0, 1)
   \<and> timer_stopped (main_loop_frame_bin (0x20, 0x20, 0x20)
        (pause_stopwatch (stopwatch_timer_isr_bin (start_stopwatch_bin (boot_bin False)))))
   \<and> counters (main_loop_frame_bin (0x20, 0x20, 0x20)
        (pause_stopwatch (stopwatch_timer_isr_bin (start_stopwatch_bin (boot_bin False)))))
        = (0, 0, 0)"
proof -
  let ?s = "pause_stopwatch (stopwatch_timer_isr_bin (start_stopwatch_bin (boot_bin False)))"
  have e: "handle_inputs_bin 0x20 0x20 0x20 ?s = (reset_stopwatch ?s)\<lparr>prev_joypad := 0x20\<rparr>"
    by (rule handle_inputs_reset)
      (simp_all add: paused_once_fields press_edge_def J_A_def J_B_def)
  have t: "TAC_REG (reset_stopwatch ?s) = TAC_REG ?s"
    by (simp add: reset_stopwatch_def sfx_4_def printf_xy_def Let_def)
  have f: "main_loop_frame_bin (0x20, 0x20, 0x20) ?s = (reset_stopwatch ?s)\<lparr>prev_joypad := 0x20\<rparr>"
    by (simp add: main_loop_frame_bin_def e handle_stopwatch_bin_def pause_reset_fields)
  show ?thesis
    using paused_once_fields(2) [of False]
    by (simp add: f paused_once_fields isr_once_fields counters_prev_joypad
        pause_reset_fields timer_stopped_def t)
qed

lemma frames_stopped_idle:
  assumes "\<forall>j\<in>set js. a_released j \<and> b_released j" "\<not> stopwatch s" "timer_stopped s"
  shows "stopped_during_bin js s" and "stopped_during_bcd js s"
  using assms
  by (induction js arbitrary: s) (simp_all add: frame_released_idle timer_stopped_def)

text \<open>
  Claim C7, amended. Pausing twice in a row gives the same state as pausing once. Any
  number of main-loop frames that run while the timer is stopped (stopped before each
  frame and after the last) and in which the B button is not down leave the minutes, the
  seconds and the sub-unit counter unchanged. Frames in which neither button is down,
  run from an idle state with the timer stopped, are such frames: they keep the timer
  stopped, the stopwatch idle and the timer registers as they were.
\<close>

theorem pause_idempotent_amended:
  "pause_stopwatch (pause_stopwatch s) = pause_stopwatch s
   \<and> (stopped_during_bin js s \<and> (\<forall>j\<in>set js. b_released j) \<longrightarrow>
        counters (fold main_loop_frame_bin js s) = counters s)
   \<and> (stopped_during_bcd js s \<and> (\<forall>j\<in>set js. b_released j) \<longrightarrow>
        counters (fold main_loop_frame_bcd js s) = counters s)
   \<and> ((\<forall>j\<in>set js. a_released j \<and> b_released j) \<and> \<not> stopwatch s \<and> timer_stopped s \<longrightarrow>
        stopped_during_bin js s
      \<and> \<not> stopwatch (fold main_loop_frame_bin js s)
      \<and> TAC_REG (fold main_loop_frame_bin js s) = TAC_REG s
      \<and> TIMA_REG (fold main_loop_frame_bin js s) = TIMA_REG s
      \<and> stopped_during_bcd js s
      \<and> \<not> stopwatch (fold main_loop_frame_bcd js s)
      \<and> TAC_REG (fold main_loop_frame_bcd js s) = TAC_REG s
      \<and> TIMA_REG (fold main_loop_frame_bcd js s) = TIMA_REG s)"
  using frames_b_released [of js s] frames_released_idle [of js s] frames_stopped_idle [of js s]
  by (simp add: pause_stopwatch_idem)

theorem pause_idempotent_amended_witness:
  "a_released (0, 0, 0) \<and> b_released (0, 0, 0)
   \<and> a_released (0x01, 0x01, 0x01) \<and> b_released (0x01, 0x01, 0x01)
   \<and> \<not> stopwatch (pause_stopwatch (stopwatch_timer_isr_bin (start_stopwatch_bin (boot_bin False))))
   \<and> timer_stopped (pause_stopwatch (stopwatch_timer_isr_bin (start_stopwatch_bin (boot_bin False))))
   \<and> stopped_during_bin [(0, 0, 0), (0x01, 0x01, 0x01), (0, 0, 0)]
        (pause_stopwatch (stopwatch_timer_isr_bin (start_stopwatch_bin (boot_bin False))))
   \<and> counters (fold main_loop_frame_bin [(0, 0, 0), (0x01, 0x01, 0x01), (0, 0, 0)]
        (pause_stopwatch (stopwatch_timer_isr_bin (start_stopwatch_bin (boot_bin False)))))
       = (0, 0, 1)
   \<and> \<not> stopwatch (fold main_loop_frame_bin [(0, 0, 0), (0x01, 0x01, 0x01), (0, 0, 0)]
        (pause_stopwatch (stopwatch_timer_isr_bin (start_stopwatch_bin (boot_bin False)))))
   \<and> TAC_REG (fold main_loop_frame_bin [(0, 0, 0), (0x01, 0x01, 0x01), (0, 0, 0)]
        (pause_stopwatch (stopwatch_timer_isr_bin (start_stopwatch_bin (boot_bin False))))) = 0"
proof -
  let ?s = "pause_stopwatch (stopwatch_timer_isr_bin (start_stopwatch_bin (boot_bin False)))"
  let ?js = "[(0, 0, 0), (0x01, 0x01, 0x01), (0, 0, 0)] :: (u8 \<times> u8 \<times> u8) list"
  have r: "a_released (0, 0, 0)" "b_released (0, 0, 0)"
    "a_released (0x01, 0x01, 0x01)" "b_released (0x01, 0x01, 0x01)"
    by (simp_all add: a_released_def b_released_def J_A_def J_B_def)
  then have h: "\<forall>j\<in>set ?js. a_released j \<and> b_released j" by simp
  then have h': "\<forall>j\<in>set ?js. b_released j" by simp
  have i: "\<not> stopwatch ?s" "timer_stopped ?s" by (rule paused_once_fields)+
  have t: "TAC_REG ?s = 0" by (simp add: pause_stopwatch_fields TACF_STOP_def)
  from pause_idempotent_amended [of ?s ?js] h i
  have d: "stopped_during_bin ?js ?s"
    and "\<not> stopwatch (fold main_loop_frame_bin ?js ?s)"
    and "TAC_REG (fold main_loop_frame_bin ?js ?s) = TAC_REG ?s"
    by blast+
  moreover from pause_idempotent_amended [of ?s ?js] d h'
  have "counters (fold main_loop_frame_bin ?js ?s) = counters ?s"
    by blast
  ultimately show ?thesis
    using r i t paused_once_fields(4) [of False] by simp
qed

section \<open>The timer modulo\<close>

lemma boot_timer_fields:
  "is_cpu_fast (boot_bin cgb) = cgb" "TMA_REG (boot_bin cgb) = (if cgb then 174 else 92)"
  "is_cpu_fast (boot_bcd cgb) = cgb" "TMA_REG (boot_bcd cgb) = (if cgb then 192 else 224)"
  by (simp_all add: boot_defs TMA_REG_REALTIME_DMG_def TMA_REG_REALTIME_GBC_def)

lemma bcd_modulo_no_base:
  "\<not> (\<exists>baseTicks. unat (TMA_REG (boot_bcd False)) = spec_modulo baseTicks False
        \<and> unat (TMA_REG (boot_bcd True)) = spec_modulo baseTicks True)"
  by (auto simp: boot_timer_fields spec_modulo_def speedFactor_def)

text \<open>
  Claim C8, as stated, fails in the BCD revision. At normal speed the speed factor is 1,
  so the modulo 224 that the code loads fixes the base tick count at 32; at double speed
  the formula then gives 256 - 32 div 2 = 240, and the code loads 192.
\<close>

theorem modulo_formula_counterexample:
  "\<not> is_cpu_fast (boot_bcd False)
   \<and> unat (TMA_REG (boot_bcd False)) = spec_modulo 32 False
   \<and> is_cpu_fast (boot_bcd True)
   \<and> spec_modulo 32 True = 240
   \<and> unat (TMA_REG (boot_bcd True)) = 192
   \<and> unat (TMA_REG (boot_bcd True)) \<noteq> spec_modulo 32 True"
  by (simp add: boot_timer_fields spec_modulo_def speedFactor_def)

text \<open>
  Claim C8, amended. The binary revision loads the modulo 256 - (164 div speed factor),
  92 at normal and 174 at double speed, into both the modulo and the counter register,
  and starts the timer on the CPU/256 source at normal and the CPU/1024 source at
  double speed. The BCD revision loads 256 - (32 * speed factor), 224 at normal and 192
  at double speed, and always starts the timer on the CPU/1024 source. In each revision
  the overflow rate (input clock over ticks per overflow) is the same at both speeds:
  4096/41 Hz, just under 100, in the binary and 128 Hz in the BCD revision.
\<close>

theorem timer_modulo_amended:
  "unat (TMA_REG (set_timer_realtime_reg s)) = spec_modulo 164 (is_cpu_fast s)
   \<and> TIMA_REG (set_timer_realtime_reg s) = TMA_REG (set_timer_realtime_reg s)
   \<and> unat (TMA_REG (set_timer_reg_stopwatch s)) = scaled_modulo 32 (is_cpu_fast s)
   \<and> TIMA_REG (set_timer_reg_stopwatch s) = TIMA_REG s
   \<and> timer_clock_hz (TAC_REG (start_stopwatch_bin (set_timer_realtime_reg s))) (is_cpu_fast s) * 41
       = 4096 * ticks_per_overflow (start_stopwatch_bin (set_timer_realtime_reg s))
   \<and> timer_clock_hz (TAC_REG (start_stopwatch_bcd (set_timer_reg_stopwatch s))) (is_cpu_fast s)
       = 128 * ticks_per_overflow (start_stopwatch_bcd (set_timer_reg_stopwatch s))"
  by (simp add: set_timer_realtime_reg_def set_timer_reg_stopwatch_def spec_modulo_def
      scaled_modulo_def speedFactor_def TMA_REG_REALTIME_DMG_def TMA_REG_REALTIME_GBC_def
      timer_clock_hz_def ticks_per_overflow_def routine_defs TAC_REG_START_1024_def
      TAC_REG_START_256_def TACF_4KHZ_def TACF_START_def)

section \<open>The tick cue\<close>

lemma rep_bin_carried: "rep_bin T s \<Longrightarrow> stopwatch s \<and> carried_bin s"
  using rep_bin_fields [of T s] by (simp add: carried_bin_def rep_bin_def)

lemma rep_bcd_carried: "rep_bcd T s \<Longrightarrow> stopwatch s \<and> carried_bcd s"
  using rep_bcd_fields [of T s] by (simp add: carried_bcd_def rep_bcd_def)

lemma carried_bin_rep:
  assumes "stopwatch s" "carried_bin s"
  shows "rep_bin (total_bin s) s"
proof -
  let ?h = "unat (hundredths s)" and ?c = "unat (seconds s)" and ?m = "unat (minutes s)"
  have h: "?h < 100" and c: "?c < 60" using assms by (simp_all add: carried_bin_def)
  have "((?m * 60 + ?c) * 100 + ?h) mod 100 = ?h mod 100" by (rule mod_mult_self3)
  then have a: "total_bin s mod 100 = ?h" using h by (simp only: total_bin_def mod_less)
  have "((?m * 60 + ?c) * 100 + ?h) div 100 = (?m * 60 + ?c) + ?h div 100"
    by (rule div_mult_self3) simp
  then have b: "total_bin s div 100 = ?m * 60 + ?c"
    using h by (simp only: total_bin_def div_less add_0_right)
  have "(?m * 60 + ?c) mod 60 = ?c" "(?m * 60 + ?c) div 60 = ?m" using c by simp_all
  then show ?thesis using assms(1) by (simp add: rep_bin_def a b)
qed

lemma carried_bcd_rep:
  assumes "stopwatch s" "carried_bcd s"
  shows "rep_bcd (total_bcd s) s"
proof -
  let ?h = "unat (hundredths s)" and ?c = "bcd_value (seconds s)"
    and ?m = "bcd_value (minutes s)"
  have h: "?h < 128" and c: "?c < 60" and vs: "valid_bcd (seconds s)"
    and vm: "valid_bcd (minutes s)"
    using assms by (simp_all add: carried_bcd_def)
  have m: "?m < 100" using valid_bcd_to_bcd [OF vm] by simp
  have "((?m * 60 + ?c) * 128 + ?h) mod 128 = ?h mod 128" by (rule mod_mult_self3)
  then have a: "total_bcd s mod 128 = ?h" using h by (simp only: total_bcd_def mod_less)
  have "((?m * 60 + ?c) * 128 + ?h) div 128 = (?m * 60 + ?c) + ?h div 128"
    by (rule div_mult_self3) simp
  then have b: "total_bcd s div 128 = ?m * 60 + ?c"
    using h by (simp only: total_bcd_def div_less add_0_right)
  have "(?m * 60 + ?c) mod 60 = ?c" "(?m * 60 + ?c) div 60 = ?m" using c by simp_all
  then show ?thesis
    using assms(1) m valid_bcd_to_bcd [OF vm] valid_bcd_to_bcd [OF vs]
    by (simp add: rep_bcd_def a b)
qed

lemma div_window_carry:
  assumes "0 < n" "T mod n = n - 1"
  shows "Suc (Suc (T + t) div n - Suc T div n) = Suc (T + t) div n - T div n"
proof -
  have "Suc T div n \<le> Suc (T + t) div n" by (rule div_le_mono) simp
  moreover have "Suc T div n = Suc (T div n)" using assms by (simp add: Suc_div_if)
  ultimately show ?thesis by simp
qed

lemma div_window_same:
  assumes "0 < n" "T mod n \<noteq> n - 1"
  shows "Suc (T + t) div n - Suc T div n = Suc (T + t) div n - T div n"
proof -
  have "Suc T div n = T div n" using assms by (simp add: Suc_div_if)
  then show ?thesis by simp
qed

lemma cue_count_bin_rep:
  "rep_bin T s \<Longrightarrow> cue_count_bin t s = (T + t) div 100 - T div 100"
proof (induction t arbitrary: T s)
  case 0
  show ?case by simp
next
  case (Suc t)
  from rep_bin_carried [OF Suc.prems] have r: "stopwatch s" "carried_bin s" by simp_all
  have c: "isr_sets_cue_bin s = (T mod 100 = 99)"
    using isr_sets_cue_bin_iff [OF r] rep_bin_fields(1) [OF Suc.prems] by simp
  have "cue_count_bin t (stopwatch_timer_isr_bin s) = (Suc T + t) div 100 - Suc T div 100"
    by (rule Suc.IH [OF rep_bin_step [OF Suc.prems]])
  then have i: "cue_count_bin t (stopwatch_timer_isr_bin s)
      = Suc (T + t) div 100 - Suc T div 100" by simp
  show ?case
  proof (cases "T mod 100 = 99")
    case True
    have "Suc (Suc (T + t) div 100 - Suc T div 100) = Suc (T + t) div 100 - T div 100"
      by (rule div_window_carry) (simp_all add: True)
    then show ?thesis using True by (simp add: c i)
  next
    case False
    have "Suc (T + t) div 100 - Suc T div 100 = Suc (T + t) div 100 - T div 100"
      by (rule div_window_same) (simp_all add: False)
    then show ?thesis using False by (simp add: c i)
  qed
qed

lemma cue_count_bcd_rep:
  "rep_bcd T s \<Longrightarrow> cue_count_bcd t s = (T + t) div 128 - T div 128"
proof (induction t arbitrary: T s)
  case 0
  show ?case by simp
next
  case (Suc t)
  from rep_bcd_carried [OF Suc.prems] have r: "stopwatch s" "carried_bcd s" by simp_all
  have c: "isr_sets_cue_bcd s = (T mod 128 = 127)"
    using isr_sets_cue_bcd_iff [OF r] rep_bcd_fields(1) [OF Suc.prems] by simp
  have "cue_count_bcd t (stopwatch_timer_isr_bcd s) = (Suc T + t) div 128 - Suc T div 128"
    by (rule Suc.IH [OF rep_bcd_step [OF Suc.prems]])
  then have i: "cue_count_bcd t (stopwatch_timer_isr_bcd s)
      = Suc (T + t) div 128 - Suc T div 128" by simp
  show ?case
  proof (cases "T mod 128 = 127")
    case True
    have "Suc (Suc (T + t) div 128 - Suc T div 128) = Suc (T + t) div 128 - T div 128"
      by (rule div_window_carry) (simp_all add: True)
    then show ?thesis using True by (simp add: c i)
  next
    case False
    have "Suc (T + t) div 128 - Suc T div 128 = Suc (T + t) div 128 - T div 128"
      by (rule div_window_same) (simp_all add: False)
    then show ?thesis using False by (simp add: c i)
  qed
qed

lemma handle_stopwatch_consumes:
  "stopwatch s \<Longrightarrow> \<not> play_tick_sfx (handle_stopwatch_bin s)"
  "stopwatch s \<Longrightarrow> \<not> play_tick_sfx (handle_stopwatch_bcd s)"
  "\<not> play_tick_sfx s \<Longrightarrow> \<not> play_tick_sfx (handle_stopwatch_bin s)"
  "\<not> play_tick_sfx s \<Longrightarrow> sound_regs (handle_stopwatch_bin s) = sound_regs s"
  "\<not> play_tick_sfx s \<Longrightarrow> \<not> play_tick_sfx (handle_stopwatch_bcd s)"
  "\<not> play_tick_sfx s \<Longrightarrow> sound_regs (handle_stopwatch_bcd s) = sound_regs s"
  by (simp_all add: handle_stopwatch_bin_def handle_stopwatch_bcd_def Let_def
      print_stopwatch_bin_fields print_stopwatch_bcd_fields)

lemma cue_count_from_zero:
  assumes "stopwatch s" "counters s = (0, 0, 0)"
  shows "cue_count_bin t s = t div 100" "cue_count_bcd t s = t div 128"
  using cue_count_bin_rep [OF rep_bin_zero [OF assms], of t]
    cue_count_bcd_rep [OF rep_bcd_zero [OF assms], of t]
  by simp_all

lemma cue_count_window:
  "stopwatch s \<Longrightarrow> carried_bin s \<Longrightarrow> cue_count_bin 100 s = 1"
  "stopwatch s \<Longrightarrow> carried_bcd s \<Longrightarrow> cue_count_bcd 128 s = 1"
  using cue_count_bin_rep [OF carried_bin_rep, of s 100]
    cue_count_bcd_rep [OF carried_bcd_rep, of s 128]
  by simp_all

text \<open>
  Claim C9, as stated, fails: the cue flag is set on every seconds increment, so in 60
  seconds of continuous running from zero (6000 interrupts at N = 100, 7680 at N = 128)
  it is set by 60 invocations, not by one.
\<close>

theorem cue_per_minute_counterexample:
  "cue_count_bin 6000 (start_stopwatch_bin (boot_bin False)) = 60
   \<and> cue_count_bin 6000 (start_stopwatch_bin (boot_bin False)) \<noteq> 1
   \<and> cue_count_bcd 7680 (start_stopwatch_bcd (boot_bcd False)) = 60
   \<and> cue_count_bcd 7680 (start_stopwatch_bcd (boot_bcd False)) \<noteq> 1"
  using cue_count_from_zero(1) [of "start_stopwatch_bin (boot_bin False)" 6000]
    cue_count_from_zero(2) [of "start_stopwatch_bcd (boot_bcd False)" 7680]
  by (simp add: start_stopwatch_fields boot_fields)

text \<open>
  Claim C9, amended. The cue flag is set by exactly one invocation per second of run
  time: running from zero, \<open>t div N\<close> of the first \<open>t\<close> invocations set it, and from
  any reachable running state exactly one of the next N invocations does. The consumer
  \<open>handle_stopwatch\<close> leaves the flag clear whenever the stopwatch runs, and when it
  finds the flag clear it leaves it clear and does not touch the sound registers, so a
  setting is played at most once; while idle the consumer does nothing.
\<close>

theorem tick_cue_amended:
  "(stopwatch s \<and> counters s = (0, 0, 0) \<longrightarrow>
      cue_count_bin t s = t div 100 \<and> cue_count_bcd t s = t div 128)
   \<and> (reachable_bin s \<and> stopwatch s \<longrightarrow> cue_count_bin 100 s = 1)
   \<and> (reachable_bcd s \<and> stopwatch s \<longrightarrow> cue_count_bcd 128 s = 1)
   \<and> (stopwatch s \<longrightarrow>
        \<not> play_tick_sfx (handle_stopwatch_bin s) \<and> \<not> play_tick_sfx (handle_stopwatch_bcd s))
   \<and> (\<not> play_tick_sfx s \<longrightarrow>
        \<not> play_tick_sfx (handle_stopwatch_bin s)
      \<and> sound_regs (handle_stopwatch_bin s) = sound_regs s
      \<and> \<not> play_tick_sfx (handle_stopwatch_bcd s)
      \<and> sound_regs (handle_stopwatch_bcd s) = sound_regs s)
   \<and> (\<not> stopwatch s \<longrightarrow> handle_stopwatch_bin s = s \<and> handle_stopwatch_bcd s = s)"
proof (intro conjI impI)
  assume "stopwatch s \<and> counters s = (0, 0, 0)"
  then show "cue_count_bin t s = t div 100" "cue_count_bcd t s = t div 128"
    by (simp_all add: cue_count_from_zero)
next
  assume "reachable_bin s \<and> stopwatch s"
  then show "cue_count_bin 100 s = 1"
    by (simp add: cue_count_window reachable_bin_inv)
next
  assume "reachable_bcd s \<and> stopwatch s"
  then show "cue_count_bcd 128 s = 1"
    by (simp add: cue_count_window reachable_bcd_inv)
next
  assume "stopwatch s"
  then show "\<not> play_tick_sfx (handle_stopwatch_bin s)" "\<not> play_tick_sfx (handle_stopwatch_bcd s)"
    by (simp_all add: handle_stopwatch_consumes)
next
  assume "\<not> play_tick_sfx s"
  then show "\<not> play_tick_sfx (handle_stopwatch_bin s)"
    "sound_regs (handle_stopwatch_bin s) = sound_regs s"
    "\<not> play_tick_sfx (handle_stopwatch_bcd s)"
    "sound_regs (handle_stopwatch_bcd s) = sound_regs s"
    by (simp_all add: handle_stopwatch_consumes)
next
  assume "\<not> stopwatch s"
  then show "handle_stopwatch_bin s = s" "handle_stopwatch_bcd s = s"
    by (simp_all add: handle_stopwatch_bin_def handle_stopwatch_bcd_def)
qed

lemma started_flag:
  "\<not> play_tick_sfx (start_stopwatch_bin (boot_bin cgb))"
  "\<not> play_tick_sfx (start_stopwatch_bcd (boot_bcd cgb))"
  by (simp_all add: routine_defs boot_defs)

theorem tick_cue_amended_witness:
  "stopwatch (start_stopwatch_bin (boot_bin False))
   \<and> counters (start_stopwatch_bin (boot_bin False)) = (0, 0, 0)
   \<and> reachable_bin (start_stopwatch_bin (boot_bin False))
   \<and> \<not> play_tick_sfx (start_stopwatch_bin (boot_bin False))
   \<and> cue_count_bin 250 (start_stopwatch_bin (boot_bin False)) = 2
   \<and> cue_count_bin 100 (start_stopwatch_bin (boot_bin False)) = 1
   \<and> \<not> play_tick_sfx (handle_stopwatch_bin (start_stopwatch_bin (boot_bin False)))
   \<and> sound_regs (handle_stopwatch_bin (start_stopwatch_bin (boot_bin False)))
       = sound_regs (start_stopwatch_bin (boot_bin False))
   \<and> stopwatch (start_stopwatch_bcd (boot_bcd True))
   \<and> reachable_bcd (start_stopwatch_bcd (boot_bcd True))
   \<and> cue_count_bcd 128 (start_stopwatch_bcd (boot_bcd True)) = 1
   \<and> \<not> stopwatch (boot_bin False)
   \<and> handle_stopwatch_bin (boot_bin False) = boot_bin False"
proof -
  let ?a = "start_stopwatch_bin (boot_bin False)"
  let ?b = "start_stopwatch_bcd (boot_bcd True)"
  have a: "stopwatch ?a" "counters ?a = (0, 0, 0)" "reachable_bin ?a" "\<not> play_tick_sfx ?a"
    by (simp_all add: start_stopwatch_fields boot_fields started_fields started_flag)
  have b: "stopwatch ?b" "reachable_bcd ?b"
    by (simp_all add: start_stopwatch_fields started_fields)
  have c: "\<not> stopwatch (boot_bin False)" by (simp add: boot_fields)
  have "cue_count_bin 250 ?a = 250 div 100" "cue_count_bin 100 ?a = 1"
    "\<not> play_tick_sfx (handle_stopwatch_bin ?a)"
    "sound_regs (handle_stopwatch_bin ?a) = sound_regs ?a"
    using tick_cue_amended [of ?a 250] a by blast+
  moreover have "cue_count_bcd 128 ?b = 1"
    using tick_cue_amended [of ?b 0] b by blast
  moreover have "handle_stopwatch_bin (boot_bin False) = boot_bin False"
    using tick_cue_amended [of "boot_bin False" 0] c by blast
  ultimately show ?thesis
    using a b c by simp
qed

section \<open>The hundredths table\<close>

lemma MilTable128_codes:
  "map (map (of_char :: char \<Rightarrow> nat)) MilTable128
     = map (\<lambda>v. [48 + v * 100 div 128 div 10, 48 + v * 100 div 128 mod 10]) [0..<128]"
  by (simp add: MilTable128_def upt_rec)

lemma MilTable128_length: "length MilTable128 = 128"
  using arg_cong [OF MilTable128_codes, of length] by simp

lemma digit_char_code: "d < 10 \<Longrightarrow> of_char (digit_char d) = (48 + d :: nat)"
proof -
  have "\<forall>d\<in>set [0..<10]. of_char (digit_char d) = (48 + d :: nat)"
    by (simp add: digit_char_def upt_rec)
  then show "d < 10 \<Longrightarrow> of_char (digit_char d) = (48 + d :: nat)" by simp
qed

lemma MilTable128_entry:
  assumes "v < 128"
  shows "MilTable128 ! v
     = [digit_char (v * 100 div 128 div 10), digit_char (v * 100 div 128 mod 10)]"
proof -
  let ?q = "v * 100 div 128"
  have q: "?q div 10 < 10" using assms by simp
  have "map (map (of_char :: char \<Rightarrow> nat)) MilTable128 ! v = [48 + ?q div 10, 48 + ?q mod 10]"
    using assms by (simp only: MilTable128_codes) simp
  then have "map (of_char :: char \<Rightarrow> nat) (MilTable128 ! v) = [48 + ?q div 10, 48 + ?q mod 10]"
    using assms by (simp add: MilTable128_length)
  also have "\<dots> = map (of_char :: char \<Rightarrow> nat) [digit_char (?q div 10), digit_char (?q mod 10)]"
    using q by (simp add: digit_char_code)
  finally have "map (of_char :: char \<Rightarrow> nat) (MilTable128 ! v)
      = map of_char [digit_char (?q div 10), digit_char (?q mod 10)]" .
  moreover have "inj (of_char :: char \<Rightarrow> nat)" by (simp add: inj_on_def)
  ultimately show ?thesis by (simp only: inj_map_eq_map)
qed

lemma mil_shown_eq:
  assumes "v < 128"
  shows "mil_shown v = v * 100 div 128"
proof -
  have "v * 100 div 128 div 10 < 10" using assms by simp
  then show ?thesis
    by (simp add: mil_shown_def MilTable128_entry [OF assms] digit_char_code)
qed

lemma print_stopwatch_bcd_mil:
  assumes "unat (hundredths s) < 128"
  shows "bkg (print_stopwatch_bcd s) (12, 6)
           = NUMBERS_BASE_TILE_IDX + of_nat (unat (hundredths s) * 100 div 128 div 10)"
    and "bkg (print_stopwatch_bcd s) (13, 6)
           = NUMBERS_BASE_TILE_IDX + of_nat (unat (hundredths s) * 100 div 128 mod 10)"
proof -
  let ?q = "unat (hundredths s) * 100 div 128"
  have q: "?q div 10 < 10" using assms by simp
  have c: "(of_char (digit_char d) :: u8) = of_nat (of_char (digit_char d))" for d
    by (rule of_nat_of_char [symmetric])
  have d: "d < 10 \<Longrightarrow> (of_char (digit_char d) :: u8) - 48 = of_nat d" for d
    by (simp only: c digit_char_code) simp
  show "bkg (print_stopwatch_bcd s) (12, 6) = NUMBERS_BASE_TILE_IDX + of_nat (?q div 10)"
    using q by (simp add: print_stopwatch_bcd_def set_vram_byte_xy_def Let_def
        MilTable128_entry [OF assms] d)
  show "bkg (print_stopwatch_bcd s) (13, 6) = NUMBERS_BASE_TILE_IDX + of_nat (?q mod 10)"
    by (simp add: print_stopwatch_bcd_def set_vram_byte_xy_def Let_def
        MilTable128_entry [OF assms] d)
qed

text \<open>
  Claim C10. In the BCD revision the table \<open>MilTable128\<close> has 128 entries, and for every
  sub-unit value \<open>v\<close> below 128 its entry is the two decimal digit characters of
  \<open>v * 100 div 128\<close> (at most 99). \<open>print_stopwatch\<close> shows exactly these two digits
  as the tiles of the hundredths field, columns 12 and 13 of row 6, and the number shown
  does not decrease when \<open>v\<close> grows.
\<close>

theorem mil_table_rescales:
  assumes "v < 128" and "w < 128" and "v \<le> w"
  shows "length MilTable128 = 128
       \<and> MilTable128 ! v
           = [digit_char (v * 100 div 128 div 10), digit_char (v * 100 div 128 mod 10)]
       \<and> mil_shown v = v * 100 div 128
       \<and> mil_shown v \<le> 99
       \<and> mil_shown v \<le> mil_shown w
       \<and> (unat (hundredths s) = v \<longrightarrow>
            bkg (print_stopwatch_bcd s) (12, 6)
              = NUMBERS_BASE_TILE_IDX + of_nat (mil_shown v div 10)
          \<and> bkg (print_stopwatch_bcd s) (13, 6)
              = NUMBERS_BASE_TILE_IDX + of_nat (mil_shown v mod 10))"
proof -
  have m: "v * 100 div 128 \<le> w * 100 div 128"
    using assms(3) by (intro div_le_mono) simp
  have b: "v * 100 div 128 \<le> 99" using assms(1) by simp
  show ?thesis
    using m b print_stopwatch_bcd_mil [of s] assms(1)
    by (auto simp: MilTable128_length MilTable128_entry [OF assms(1)] mil_shown_eq [OF assms(1)]
        mil_shown_eq [OF assms(2)])
qed

theorem mil_table_rescales_witness:
  "(64 :: nat) < 128 \<and> (127 :: nat) < 128 \<and> (64 :: nat) \<le> 127
   \<and> MilTable128 ! 64 = ''50''
   \<and> mil_shown 64 = 50
   \<and> mil_shown 64 \<le> mil_shown 127
   \<and> unat (hundredths ((stopwatch_timer_isr_bcd ^^ 64) (start_stopwatch_bcd (boot_bcd False)))) = 64
   \<and> bkg (print_stopwatch_bcd
        ((stopwatch_timer_isr_bcd ^^ 64) (start_stopwatch_bcd (boot_bcd False)))) (12, 6) = 21
   \<and> bkg (print_stopwatch_bcd
        ((stopwatch_timer_isr_bcd ^^ 64) (start_stopwatch_bcd (boot_bcd False)))) (13, 6) = 16"
proof -
  let ?s = "(stopwatch_timer_isr_bcd ^^ 64) (start_stopwatch_bcd (boot_bcd False))"
  have h: "(64 :: nat) < 128" "(127 :: nat) < 128" "(64 :: nat) \<le> 127" by simp_all
  have u: "unat (hundredths ?s) = 64"
    using rep_bcd_fields(1) [OF run_bcd_rep [of 64 False]] by simp
  from mil_table_rescales [OF h, of ?s] u
  show ?thesis
    by (simp add: digit_char_def NUMBERS_BASE_TILE_IDX_def)
qed

end
